theory Spec2Isabelle
  imports Main "HOL-Library.Sublist" "HOL-Library.AList"
begin

section \<open>Constants of \<^verbatim>\<open>src/extension.ts\<close>\<close>

definition GITHUB_REPO :: string where
  "GITHUB_REPO = ''smpanaro/flatbuffers-language-server''"

definition BINARY_NAME :: string where
  "BINARY_NAME = ''flatbuffers-language-server''"

definition VERSION_PREFIX :: string where
  "VERSION_PREFIX = ''flatbuffers-language-server-''"

definition LATEST_VERSION_KEY :: string where
  "LATEST_VERSION_KEY = ''latestKnownVersion''"

definition LATEST_SKIPPED_VERSION_KEY :: string where
  "LATEST_SKIPPED_VERSION_KEY = ''latestSkippedVersion''"

definition CONFIG_NAME :: string where
  "CONFIG_NAME = ''flatbuffers''"

section \<open>Data model\<close>

text \<open>A JavaScript \<^verbatim>\<open>Error\<close>: only its message is observed by the extension.\<close>

datatype exn = Error (message: string)

text \<open>The release index answer, as \<^verbatim>\<open>getLatestRelease\<close> reads it: \<^verbatim>\<open>tag_name\<close> and
  \<^verbatim>\<open>assets\<close>, each asset with \<^verbatim>\<open>name\<close> and \<^verbatim>\<open>browser_download_url\<close>.\<close>

record asset =
  name :: string
  browser_download_url :: string

record release =
  tag_name :: string
  assets :: "asset list"

text \<open>The body of a streamed download: the bytes that arrive, and the error that interrupts
  the stream, if one does.\<close>

record stream =
  received :: string
  interruption :: "exn option"

text \<open>The file system: an ordered table from path strings to nodes. The order is the order
  in which \<^verbatim>\<open>readdir\<close> lists entries.\<close>

datatype node = File (content: string) (mode: nat) | Dir

type_synonym filesystem = "(string \<times> node) list"

text \<open>Host operations that can fail for reasons outside the program (permissions, locks,
  a full disk, a rejected settings write).\<close>

datatype host_op =
  EnsureDir | Chmod | Readdir | Remove | CreateWriteStream | GlobalStateUpdate | ConfigUpdate

datatype FileChangeType = Created | Changed | Deleted

text \<open>Everything the extension does that the outside can observe, in order.\<close>

datatype event =
  HttpGet string
  | ShowErrorMessage string
  | ShowInformationMessage string "string list"
  | ShowProgress string
  | ProgressReport string
  | ConsoleLog string
  | ConsoleError string
  | ExecuteCommand string
  | SendNotification string "(string \<times> FileChangeType) list"

text \<open>A \<^verbatim>\<open>vscode.Uri\<close>: its \<^verbatim>\<open>fsPath\<close> and its \<^verbatim>\<open>toString()\<close>.\<close>

record uri =
  fsPath :: string
  uriString :: string

text \<open>What the program reads from its surroundings and cannot change: the process, the
  search path, the remote release index (the answer to the n-th query), the download server,
  the archive formats, the user's answers to prompts (by message), and which host operations
  fail.\<close>

record env =
  platform :: string
  arch :: string
  storagePath :: string
  which_lookup :: "string \<Rightarrow> string option"
  latestRelease :: "nat \<Rightarrow> exn + release"
  download :: "string \<Rightarrow> exn + stream"
  unzip :: "string \<Rightarrow> (string \<times> node) list \<times> exn option"
  untar :: "string \<Rightarrow> (string \<times> node) list \<times> exn option"
  promptAnswer :: "string \<Rightarrow> string option"
  hostFailure :: "host_op \<Rightarrow> string \<Rightarrow> exn option"
  findFiles :: "string \<Rightarrow> uri list"
  sendFailure :: "exn option"
  revealArgument :: "string \<Rightarrow> string"

text \<open>An asynchronous function that is called without \<^verbatim>\<open>await\<close> runs up to its first
  \<^verbatim>\<open>await\<close> at the place of the call, and the caller goes on; the rest of it, from the awaited
  expression on, runs later. That rest is a task waiting in the event loop. The program makes
  two such calls: \<^verbatim>\<open>checkForUpdatesInBackground(context, cachedVersion, shouldAutoDownload)\<close> in
  \<^verbatim>\<open>getLanguageServerPath\<close>, and \<^verbatim>\<open>cleanupOldVersions(storagePath, currentVersionDir)\<close> on the
  already-installed path of \<^verbatim>\<open>downloadLanguageServer\<close>.\<close>

datatype task =
  UpdateCheckTask string bool
  | ReapTask string string

text \<open>What the program reads and writes: the disk, the extension's persistent
  \<^verbatim>\<open>globalState\<close>, the two settings (\<^verbatim>\<open>None\<close>: never set), the number of release queries
  made so far, the trace of observable events, and the tasks started and not yet run.\<close>

record world =
  fs :: filesystem
  globalState :: "string \<rightharpoonup> string"
  cfg_path :: "string option"
  cfg_autoDownload :: "bool option"
  releaseQueries :: nat
  events :: "event list"
  pending :: "task list"

section \<open>Asynchronous functions as state transformers with exceptions\<close>

type_synonym 'a io = "world \<Rightarrow> (exn + 'a) \<times> world"

definition ret :: "'a \<Rightarrow> 'a io" where
  "ret x = (\<lambda>w. (Inr x, w))"

definition throw :: "exn \<Rightarrow> 'a io" where
  "throw e = (\<lambda>w. (Inl e, w))"

text \<open>\<^verbatim>\<open>await m; f\<close>: a rejection of \<open>m\<close> skips \<open>f\<close>.\<close>

definition bind :: "'a io \<Rightarrow> ('a \<Rightarrow> 'b io) \<Rightarrow> 'b io" where
  "bind m f = (\<lambda>w. case m w of (Inl e, w') \<Rightarrow> (Inl e, w') | (Inr x, w') \<Rightarrow> f x w')"

text \<open>\<^verbatim>\<open>try { m } catch (e) { h }\<close>: the handler runs in the state the failure left.\<close>

definition try_catch :: "'a io \<Rightarrow> (exn \<Rightarrow> 'a io) \<Rightarrow> 'a io" where
  "try_catch m h = (\<lambda>w. case m w of (Inl e, w') \<Rightarrow> h e w' | (Inr x, w') \<Rightarrow> (Inr x, w'))"

text \<open>A call that is not awaited leaves its rest as a task in the queue: nothing of that rest
  has happened when the caller goes on, and its result and its rejection never reach the
  caller.\<close>

definition enqueue :: "task \<Rightarrow> unit io" where
  "enqueue t = (\<lambda>w. (Inr (), w\<lparr>pending := pending w @ [t]\<rparr>))"

definition emit :: "event \<Rightarrow> unit io" where
  "emit ev = (\<lambda>w. (Inr (), w\<lparr>events := events w @ [ev]\<rparr>))"

text \<open>The events a call adds to the trace.\<close>

definition emitted :: "world \<Rightarrow> world \<Rightarrow> event list" where
  "emitted w w' = drop (length (events w)) (events w')"

section \<open>Strings and paths\<close>

definition startsWith :: "string \<Rightarrow> string \<Rightarrow> bool" where
  "startsWith s p = prefix p s"

definition endsWith :: "string \<Rightarrow> string \<Rightarrow> bool" where
  "endsWith s p = suffix p s"

text \<open>\<^verbatim>\<open>path.sep\<close>: the backslash on Windows, the slash elsewhere.\<close>

definition path_sep :: "env \<Rightarrow> char" where
  "path_sep env = (if platform env = ''win32'' then CHR 0x5C else CHR ''/'')"

text \<open>\<^verbatim>\<open>path.join(a, b)\<close> for a normalised \<open>a\<close> and a \<open>b\<close> that is a single path component:
  there Node's normalisation changes nothing and the result is the concatenation.\<close>

definition path_join :: "env \<Rightarrow> string \<Rightarrow> string \<Rightarrow> string" where
  "path_join env a b = a @ [path_sep env] @ b"

text \<open>A name that is one path component on every platform.\<close>

definition single_component :: "string \<Rightarrow> bool" where
  "single_component s = (CHR ''/'' \<notin> set s \<and> CHR 0x5C \<notin> set s)"

text \<open>\<^verbatim>\<open>s.split(sep)\<close> of JavaScript for a one-character separator: the empty string
  splits into one empty part.\<close>

fun split_on :: "char \<Rightarrow> string \<Rightarrow> string list" where
  "split_on c [] = [[]]"
| "split_on c (x # xs) =
     (if x = c then [] # split_on c xs
      else (case split_on c xs of p # ps \<Rightarrow> (x # p) # ps | [] \<Rightarrow> [[x]]))"

section \<open>Platform Asset Selector\<close>

text \<open>\<^verbatim>\<open>getAssetName(version)\<close>, reading \<^verbatim>\<open>process.platform\<close> and \<^verbatim>\<open>process.arch\<close>.\<close>

definition getAssetName :: "env \<Rightarrow> string \<Rightarrow> string option" where
  "getAssetName env version =
     (case (if platform env = ''darwin'' then Some ''apple-darwin''
            else if platform env = ''linux'' then Some ''unknown-linux-gnu''
            else if platform env = ''win32'' then Some ''pc-windows-msvc''
            else None) of
        None \<Rightarrow> None
      | Some os \<Rightarrow>
         (case (if arch env = ''x64'' then Some ''x86_64''
                else if arch env = ''arm64'' then Some ''aarch64''
                else None) of
            None \<Rightarrow> None
          | Some ar \<Rightarrow>
             (let extension = (if platform env = ''win32'' then ''zip'' else ''tar.gz'')
              in Some (BINARY_NAME @ ''-'' @ version @ ''-'' @ ar @ ''-'' @ os @ ''.'' @ extension))))"

section \<open>Host operations\<close>

subsection \<open>The file system\<close>

text \<open>The entries directly inside directory \<open>d\<close>, by name, in listing order.\<close>

definition is_child :: "env \<Rightarrow> string \<Rightarrow> string \<Rightarrow> bool" where
  "is_child env d q =
     (prefix (d @ [path_sep env]) q \<and> length d + 1 < length q \<and>
      path_sep env \<notin> set (drop (length d + 1) q))"

definition children :: "env \<Rightarrow> filesystem \<Rightarrow> string \<Rightarrow> string list" where
  "children env f d = map (\<lambda>(q, n). drop (length d + 1) q) (filter (\<lambda>(q, n). is_child env d q) f)"

text \<open>Removing a path removes it and everything below it.\<close>

definition delete_tree :: "env \<Rightarrow> string \<Rightarrow> filesystem \<Rightarrow> filesystem" where
  "delete_tree env p f = filter (\<lambda>(q, n). q \<noteq> p \<and> \<not> prefix (p @ [path_sep env]) q) f"

definition fs_pathExists :: "string \<Rightarrow> bool io" where
  "fs_pathExists p = (\<lambda>w. (Inr (map_of (fs w) p \<noteq> None), w))"

definition fs_ensureDir :: "env \<Rightarrow> string \<Rightarrow> unit io" where
  "fs_ensureDir env p = (\<lambda>w.
     case hostFailure env EnsureDir p of
       Some e \<Rightarrow> (Inl e, w)
     | None \<Rightarrow>
        (case map_of (fs w) p of
           None \<Rightarrow> (Inr (), w\<lparr>fs := fs w @ [(p, Dir)]\<rparr>)
         | Some Dir \<Rightarrow> (Inr (), w)
         | Some (File c m) \<Rightarrow> (Inl (Error ''EEXIST: file already exists''), w)))"

definition fs_chmod :: "env \<Rightarrow> string \<Rightarrow> nat \<Rightarrow> unit io" where
  "fs_chmod env p m = (\<lambda>w.
     case hostFailure env Chmod p of
       Some e \<Rightarrow> (Inl e, w)
     | None \<Rightarrow>
        (case map_of (fs w) p of
           None \<Rightarrow> (Inl (Error ''ENOENT: no such file or directory''), w)
         | Some Dir \<Rightarrow> (Inr (), w)
         | Some (File c m0) \<Rightarrow> (Inr (), w\<lparr>fs := AList.update p (File c m) (fs w)\<rparr>)))"

text \<open>\<^verbatim>\<open>fs.remove\<close> of fs-extra: a path that does not exist is not an error.\<close>

definition fs_remove :: "env \<Rightarrow> string \<Rightarrow> unit io" where
  "fs_remove env p = (\<lambda>w.
     case hostFailure env Remove p of
       Some e \<Rightarrow> (Inl e, w)
     | None \<Rightarrow> (Inr (), w\<lparr>fs := delete_tree env p (fs w)\<rparr>))"

definition fs_readdir :: "env \<Rightarrow> string \<Rightarrow> string list io" where
  "fs_readdir env p = (\<lambda>w.
     case hostFailure env Readdir p of
       Some e \<Rightarrow> (Inl e, w)
     | None \<Rightarrow>
        (case map_of (fs w) p of
           None \<Rightarrow> (Inl (Error ''ENOENT: no such file or directory''), w)
         | Some Dir \<Rightarrow> (Inr (children env (fs w) p), w)
         | Some (File c m) \<Rightarrow> (Inl (Error ''ENOTDIR: not a directory''), w)))"

text \<open>\<^verbatim>\<open>fs.stat(p).then(s => s.isDirectory()).catch(() => false)\<close>.\<close>

definition stat_isDirectory :: "string \<Rightarrow> bool io" where
  "stat_isDirectory p = (\<lambda>w. (Inr (map_of (fs w) p = Some Dir), w))"

text \<open>\<^verbatim>\<open>pipeline(stream, fs.createWriteStream(p))\<close>: the file is created (or truncated) and
  receives what arrives; an interrupted stream rejects and leaves the partial file.\<close>

definition pipeline :: "env \<Rightarrow> stream \<Rightarrow> string \<Rightarrow> unit io" where
  "pipeline env st p = (\<lambda>w.
     case hostFailure env CreateWriteStream p of
       Some e \<Rightarrow> (Inl e, w)
     | None \<Rightarrow>
        (if map_of (fs w) p = Some Dir
         then (Inl (Error ''EISDIR: illegal operation on a directory''), w)
         else
           (let w' = w\<lparr>fs := AList.update p (File (received st) 420) (fs w)\<rparr>
            in case interruption st of Some e \<Rightarrow> (Inl e, w') | None \<Rightarrow> (Inr (), w'))))"

text \<open>\<^verbatim>\<open>extract(archive, {dir})\<close> and \<^verbatim>\<open>tar.x({file: archive, cwd: dir})\<close>: the entries the
  format reads from the archive's bytes are written below \<open>dir\<close>; a corrupt archive rejects
  after the entries read so far.\<close>

definition extract_archive ::
  "env \<Rightarrow> (string \<Rightarrow> (string \<times> node) list \<times> exn option) \<Rightarrow> string \<Rightarrow> string \<Rightarrow> unit io" where
  "extract_archive env unpack archivePath dir = (\<lambda>w.
     case map_of (fs w) archivePath of
       Some (File c m) \<Rightarrow>
        (let w' = w\<lparr>fs := fold (\<lambda>(n, nd). AList.update (path_join env dir n) nd)
                             (fst (unpack c)) (fs w)\<rparr>
         in case snd (unpack c) of Some e \<Rightarrow> (Inl e, w') | None \<Rightarrow> (Inr (), w'))
     | Some Dir \<Rightarrow> (Inl (Error ''EISDIR: illegal operation on a directory''), w)
     | None \<Rightarrow> (Inl (Error ''ENOENT: no such file or directory''), w))"

subsection \<open>Network, search path, persistent state, settings, prompts\<close>

definition releaseUrl :: string where
  "releaseUrl = ''https://api.github.com/repos/'' @ GITHUB_REPO @ ''/releases/latest''"

text \<open>\<^verbatim>\<open>getLatestRelease()\<close>: one request to the release index.\<close>

definition getLatestRelease :: "env \<Rightarrow> release io" where
  "getLatestRelease env = (\<lambda>w.
     (let w' = w\<lparr>releaseQueries := Suc (releaseQueries w), events := events w @ [HttpGet releaseUrl]\<rparr>
      in case latestRelease env (releaseQueries w) of
           Inl e \<Rightarrow> (Inl e, w')
         | Inr r \<Rightarrow> (Inr r, w')))"

text \<open>\<^verbatim>\<open>axios({url, method: 'GET', responseType: 'stream'})\<close>.\<close>

definition axios_stream :: "env \<Rightarrow> string \<Rightarrow> stream io" where
  "axios_stream env url =
     bind (emit (HttpGet url)) (\<lambda>_.
     case download env url of Inl e \<Rightarrow> throw e | Inr st \<Rightarrow> ret st)"

definition which :: "env \<Rightarrow> string \<Rightarrow> string io" where
  "which env n =
     (case which_lookup env n of None \<Rightarrow> throw (Error (''not found: '' @ n)) | Some p \<Rightarrow> ret p)"

definition globalStateGet :: "string \<Rightarrow> string option io" where
  "globalStateGet key = (\<lambda>w. (Inr (globalState w key), w))"

definition globalStateUpdate :: "env \<Rightarrow> string \<Rightarrow> string \<Rightarrow> unit io" where
  "globalStateUpdate env key v = (\<lambda>w.
     case hostFailure env GlobalStateUpdate key of
       Some e \<Rightarrow> (Inl e, w)
     | None \<Rightarrow> (Inr (), w\<lparr>globalState := (globalState w)(key \<mapsto> v)\<rparr>))"

definition AUTO_DOWNLOAD_CONFIG :: string where
  "AUTO_DOWNLOAD_CONFIG = ''languageServer.autoDownload''"

definition PATH_CONFIG :: string where
  "PATH_CONFIG = ''languageServer.path''"

text \<open>\<^verbatim>\<open>config.get<string | null>(PATH_CONFIG, null)\<close> and
  \<^verbatim>\<open>config.get<boolean>(AUTO_DOWNLOAD_CONFIG, false)\<close>.\<close>

definition config_get_path :: "string option io" where
  "config_get_path = (\<lambda>w. (Inr (cfg_path w), w))"

definition config_get_autoDownload :: "bool io" where
  "config_get_autoDownload =
     (\<lambda>w. (Inr (case cfg_autoDownload w of None \<Rightarrow> False | Some b \<Rightarrow> b), w))"

text \<open>JavaScript truthiness of an optional string: \<^verbatim>\<open>null\<close>, \<^verbatim>\<open>undefined\<close> and the empty
  string are falsy.\<close>

definition truthy :: "string option \<Rightarrow> bool" where
  "truthy v = (case v of None \<Rightarrow> False | Some s \<Rightarrow> s \<noteq> [])"

text \<open>An awaited \<^verbatim>\<open>window.showInformationMessage(message, ...items)\<close>: the user picks one of
  the items or dismisses the message.\<close>

definition showInformationMessage :: "env \<Rightarrow> string \<Rightarrow> string list \<Rightarrow> string option io" where
  "showInformationMessage env msg items =
     bind (emit (ShowInformationMessage msg items)) (\<lambda>_.
     ret (case promptAnswer env msg of
            None \<Rightarrow> None
          | Some a \<Rightarrow> if a \<in> set items then Some a else None))"

definition enableAutoUpdates :: "env \<Rightarrow> unit io" where
  "enableAutoUpdates env =
     bind (\<lambda>w. case hostFailure env ConfigUpdate AUTO_DOWNLOAD_CONFIG of
                 Some e \<Rightarrow> (Inl e, w)
               | None \<Rightarrow> (Inr (), w\<lparr>cfg_autoDownload := Some True\<rparr>)) (\<lambda>_.
     emit (ShowInformationMessage ''FlatBuffers auto-update enabled.'' []))"

text \<open>\<^verbatim>\<open>error?.message || error\<close> inside a template string: an \<^verbatim>\<open>Error\<close> with an empty
  message prints as its name.\<close>

definition error_text :: "exn \<Rightarrow> string" where
  "error_text e = (if message e \<noteq> [] then message e else ''Error'')"

definition ellipsis :: string where
  "ellipsis = [CHR 0xE2, CHR 0x80, CHR 0xA6]"

section \<open>Old-Version Reaper\<close>

text \<open>The \<^verbatim>\<open>for (const entry of entries)\<close> loop of \<^verbatim>\<open>cleanupOldVersions\<close>.\<close>

fun cleanup_loop :: "env \<Rightarrow> string \<Rightarrow> string \<Rightarrow> string list \<Rightarrow> unit io" where
  "cleanup_loop env storage currentVersionDir [] = ret ()"
| "cleanup_loop env storage currentVersionDir (entry # rest) =
     bind (if startsWith entry VERSION_PREFIX \<and> entry \<noteq> currentVersionDir
           then bind (emit (ConsoleLog (''Removing old version: '' @ entry))) (\<lambda>_.
                fs_remove env (path_join env storage entry))
           else ret ()) (\<lambda>_.
     cleanup_loop env storage currentVersionDir rest)"

definition cleanupOldVersions :: "env \<Rightarrow> string \<Rightarrow> string \<Rightarrow> unit io" where
  "cleanupOldVersions env storage currentVersionDir =
     try_catch
       (bind (fs_readdir env storage) (\<lambda>entries.
        cleanup_loop env storage currentVersionDir entries))
       (\<lambda>error. emit (ConsoleError (''Error cleaning up old versions: '' @ message error)))"

section \<open>Archive Fetcher and Installer\<close>

text \<open>The task \<^verbatim>\<open>downloadLanguageServer\<close> passes to \<^verbatim>\<open>window.withProgress\<close>.\<close>

definition downloadAndExtract ::
  "env \<Rightarrow> asset \<Rightarrow> string \<Rightarrow> string \<Rightarrow> string \<Rightarrow> string \<Rightarrow> string io" where
  "downloadAndExtract env matchingAsset assetName latestVersion versionDir binaryPath =
     bind (emit (ProgressReport (''Fetching v'' @ latestVersion @ ellipsis))) (\<lambda>_.
     (let downloadUrl = browser_download_url matchingAsset;
          tempArchivePath = path_join env (storagePath env) assetName
      in bind (axios_stream env downloadUrl) (\<lambda>downloadStream.
         bind (pipeline env downloadStream tempArchivePath) (\<lambda>_.
         bind (emit (ProgressReport (''Extracting'' @ ellipsis))) (\<lambda>_.
         bind (fs_ensureDir env versionDir) (\<lambda>_.
         bind (if endsWith assetName ''.zip''
               then extract_archive env (unzip env) tempArchivePath versionDir
               else extract_archive env (untar env) tempArchivePath versionDir) (\<lambda>_.
         bind (fs_remove env tempArchivePath) (\<lambda>_.
         ret binaryPath))))))))"

text \<open>What \<^verbatim>\<open>downloadLanguageServer\<close> does once the archive is extracted.\<close>

definition finishInstall :: "env \<Rightarrow> bool \<Rightarrow> string \<Rightarrow> string \<Rightarrow> string \<Rightarrow> string option io" where
  "finishInstall env isUpdate latestVersion versionDir downloadedPath =
     bind (if platform env \<noteq> ''win32'' then fs_chmod env downloadedPath 493 else ret ()) (\<lambda>_.
     bind (globalStateUpdate env LATEST_VERSION_KEY latestVersion) (\<lambda>_.
     bind (if isUpdate then
             bind (showInformationMessage env
                     (''Updated FlatBuffers Language Server. Reload to use the latest version (v'' @
                      latestVersion @ '').'')
                     [''Reload Now'']) (\<lambda>result.
             if result = Some ''Reload Now''
             then emit (ExecuteCommand ''workbench.action.reloadWindow'')
             else ret ())
           else
             emit (ShowInformationMessage
                     (''Successfully downloaded FlatBuffers Language Server v'' @
                      latestVersion @ '' to the [extension'' @ [CHR 0x27] @
                      ''s directory](command:revealFileInOS?'' @
                      revealArgument env versionDir @ '').'') [])) (\<lambda>_.
     bind (cleanupOldVersions env (storagePath env) (VERSION_PREFIX @ latestVersion)) (\<lambda>_.
     ret (Some downloadedPath)))))"

definition downloadLanguageServer :: "env \<Rightarrow> bool \<Rightarrow> string option io" where
  "downloadLanguageServer env isUpdate =
     bind (fs_ensureDir env (storagePath env)) (\<lambda>_.
     try_catch
       (bind (getLatestRelease env) (\<lambda>rel.
        (let latestVersion = tag_name rel;
             versionDir = path_join env (storagePath env) (VERSION_PREFIX @ latestVersion);
             binaryName = BINARY_NAME @ (if platform env = ''win32'' then ''.exe'' else []);
             binaryPath = path_join env versionDir binaryName
         in bind (fs_pathExists binaryPath) (\<lambda>exists.
            if exists then
              bind (emit (ConsoleLog (''Binary for version '' @ latestVersion @
                                      '' already exists at '' @ binaryPath))) (\<lambda>_.
              bind (if platform env \<noteq> ''win32'' then fs_chmod env binaryPath 493 else ret ()) (\<lambda>_.
              bind (enqueue (ReapTask (storagePath env) (VERSION_PREFIX @ latestVersion))) (\<lambda>_.
              ret (Some binaryPath))))
            else
              (case getAssetName env latestVersion of
                 None \<Rightarrow>
                   bind (emit (ShowErrorMessage (''Unsupported platform: '' @ platform env @
                                                 ''-'' @ arch env))) (\<lambda>_.
                   ret None)
               | Some assetName \<Rightarrow>
                  (case find (\<lambda>a. name a = assetName) (assets rel) of
                     None \<Rightarrow>
                       throw (Error (''Could not find a release asset for your platform: '' @
                                      assetName))
                   | Some matchingAsset \<Rightarrow>
                       bind (bind (emit (ShowProgress ((if isUpdate then ''Updating''
                                                        else ''Downloading'') @
                                                       '' FlatBuffers Language Server''))) (\<lambda>_.
                             downloadAndExtract env matchingAsset assetName latestVersion
                               versionDir binaryPath)) (\<lambda>downloadedPath.
                       finishInstall env isUpdate latestVersion versionDir downloadedPath)))))))
       (\<lambda>error.
          bind (emit (ShowErrorMessage (''Failed to '' @ (if isUpdate then ''update'' else ''download'') @
                                        '' language server: '' @ error_text error))) (\<lambda>_.
          ret None)))"

section \<open>Acquisition Orchestrator\<close>

text \<open>\<^verbatim>\<open>checkForUpdatesInBackground\<close> in two parts: what it does before its first \<^verbatim>\<open>await\<close>
  (the console line), and the rest (the \<^verbatim>\<open>try\<close> block, which begins with
  \<^verbatim>\<open>await getLatestRelease()\<close>).\<close>

definition checkForUpdates_started :: "string \<Rightarrow> unit io" where
  "checkForUpdates_started cachedVersion =
     emit (ConsoleLog (''Checking for updates. Current version: '' @ cachedVersion))"

definition checkForUpdates_resumed :: "env \<Rightarrow> string \<Rightarrow> bool \<Rightarrow> unit io" where
  "checkForUpdates_resumed env cachedVersion shouldAutoDownload =
     try_catch
       (bind (getLatestRelease env) (\<lambda>rel.
        (let latestVersion = tag_name rel
         in bind (globalStateGet LATEST_SKIPPED_VERSION_KEY) (\<lambda>stored.
            (let skippedVersion = (case stored of None \<Rightarrow> [] | Some v \<Rightarrow> v)
             in if latestVersion \<noteq> cachedVersion then
                  bind (emit (ConsoleLog (''New version found: '' @ latestVersion))) (\<lambda>_.
                  if shouldAutoDownload then
                    bind (downloadLanguageServer env True) (\<lambda>_. ret ())
                  else if latestVersion = skippedVersion then
                    emit (ConsoleLog (''Latest version was skipped ('' @ latestVersion @ '').''))
                  else
                    bind (showInformationMessage env
                            ''A new version of the FlatBuffers language server is available. [Release Notes](https://github.com/smpanaro/flatbuffers-language-server/releases)''
                            [''Download'', ''Download & Auto-Update'', ''Skip This Version'']) (\<lambda>result.
                    if result = Some ''Download & Auto-Update'' then
                      bind (enableAutoUpdates env) (\<lambda>_.
                      bind (downloadLanguageServer env True) (\<lambda>_. ret ()))
                    else if result = Some ''Download'' then
                      bind (downloadLanguageServer env True) (\<lambda>_. ret ())
                    else if result = Some ''Skip This Version'' then
                      bind (globalStateUpdate env LATEST_SKIPPED_VERSION_KEY latestVersion) (\<lambda>_.
                      emit (ConsoleLog (''Setting skipped version to '' @ latestVersion @ ''.'')))
                    else ret ()))
                else emit (ConsoleLog ''Language server is up to date.''))))))
       (\<lambda>error.
          emit (ConsoleError (''Failed to check for updates in the background: '' @ message error)))"

text \<open>The whole function, from its call to its end.\<close>

definition checkForUpdatesInBackground :: "env \<Rightarrow> string \<Rightarrow> bool \<Rightarrow> unit io" where
  "checkForUpdatesInBackground env cachedVersion shouldAutoDownload =
     bind (checkForUpdates_started cachedVersion) (\<lambda>_.
     checkForUpdates_resumed env cachedVersion shouldAutoDownload)"

text \<open>The event loop runs a waiting task: the rest of the function that was called without
  \<^verbatim>\<open>await\<close>. \<^verbatim>\<open>cleanupOldVersions\<close> begins with an \<^verbatim>\<open>await\<close>, so all of it is the rest.\<close>

fun run_task :: "env \<Rightarrow> task \<Rightarrow> unit io" where
  "run_task env (UpdateCheckTask cachedVersion shouldAutoDownload) =
     checkForUpdates_resumed env cachedVersion shouldAutoDownload"
| "run_task env (ReapTask storage currentVersionDir) =
     cleanupOldVersions env storage currentVersionDir"

text \<open>The part of \<^verbatim>\<open>getLanguageServerPath\<close> under the comment \<^verbatim>\<open>Use a previously downloaded
  version\<close>: the cached binary's path when the record is set and the file is there.\<close>

definition useCachedVersion :: "env \<Rightarrow> bool \<Rightarrow> string option \<Rightarrow> string option io" where
  "useCachedVersion env shouldAutoDownload cachedVersion =
     (case cachedVersion of
        None \<Rightarrow> ret None
      | Some v \<Rightarrow>
         if v = [] then ret None
         else
          (let versionDir = path_join env (storagePath env) (VERSION_PREFIX @ v);
               binaryName = BINARY_NAME @ (if platform env = ''win32'' then ''.exe'' else []);
               binaryPath = path_join env versionDir binaryName
           in bind (fs_pathExists binaryPath) (\<lambda>exists.
              if exists then
                bind (emit (ConsoleLog (''Using cached language server version '' @ v @
                                        '' from '' @ binaryPath))) (\<lambda>_.
                bind (checkForUpdates_started v) (\<lambda>_.
                bind (enqueue (UpdateCheckTask v shouldAutoDownload)) (\<lambda>_.
                ret (Some binaryPath))))
              else ret None)))"

text \<open>The part under the comment \<^verbatim>\<open>Initial download\<close>.\<close>

definition initialDownload :: "env \<Rightarrow> bool \<Rightarrow> string option io" where
  "initialDownload env shouldAutoDownload =
     (if shouldAutoDownload then
        bind (emit (ConsoleLog
                ''Binary not found. Auto-downloading from GitHub based on user setting.'')) (\<lambda>_.
        downloadLanguageServer env False)
      else
        bind (showInformationMessage env
                ''FlatBuffers language server was not found. Download it?''
                [''Download & Auto-Update'', ''Download Once'']) (\<lambda>result.
        if result = Some ''Download & Auto-Update'' then
          bind (enableAutoUpdates env) (\<lambda>_.
          downloadLanguageServer env False)
        else if result = Some ''Download Once'' then
          downloadLanguageServer env False
        else ret None))"

definition getLanguageServerPath :: "env \<Rightarrow> string option io" where
  "getLanguageServerPath env =
     bind config_get_path (\<lambda>userDefinedPath.
     if truthy userDefinedPath then
       bind (emit (ConsoleLog (''Using user-defined path: '' @
                               (case userDefinedPath of Some p \<Rightarrow> p | None \<Rightarrow> [])))) (\<lambda>_.
       ret userDefinedPath)
     else
       bind (try_catch
               (bind (which env BINARY_NAME) (\<lambda>pathFromWhich.
                bind (emit (ConsoleLog (''Found binary in PATH: '' @ pathFromWhich))) (\<lambda>_.
                ret (Some pathFromWhich))))
               (\<lambda>err. ret None)) (\<lambda>found.
       case found of
         Some pathFromWhich \<Rightarrow> ret (Some pathFromWhich)
       | None \<Rightarrow>
          bind config_get_autoDownload (\<lambda>shouldAutoDownload.
          bind (globalStateGet LATEST_VERSION_KEY) (\<lambda>cachedVersion.
          bind (useCachedVersion env shouldAutoDownload cachedVersion) (\<lambda>cached.
          case cached of
            Some binaryPath \<Rightarrow> ret (Some binaryPath)
          | None \<Rightarrow> initialDownload env shouldAutoDownload)))))"

section \<open>File-watcher forwarding\<close>

definition IGNORED_PATH_SEGMENTS :: "string set" where
  "IGNORED_PATH_SEGMENTS =
     {''.git'', ''.svn'', ''.hg'', ''.bzr'', ''node_modules'', ''bower_components'', ''.idea'',
      ''.vscode'', ''venv'', ''.venv'', ''dist'', ''build'', ''.cache'', ''__pycache__'',
      ''.pytest_cache''}"

text \<open>\<^verbatim>\<open>path.extname\<close> of Node, from its documentation: the part of the last path component
  from its last dot on; empty when that component has no dot, when its only dot is its first
  character, or when it is \<^verbatim>\<open>..\<close>. Trailing separators are ignored.\<close>

definition is_separator :: "env \<Rightarrow> char \<Rightarrow> bool" where
  "is_separator env c = (c = CHR ''/'' \<or> (platform env = ''win32'' \<and> c = CHR 0x5C))"

definition basename :: "env \<Rightarrow> string \<Rightarrow> string" where
  "basename env p =
     rev (takeWhile (\<lambda>c. \<not> is_separator env c) (dropWhile (is_separator env) (rev p)))"

definition extname :: "env \<Rightarrow> string \<Rightarrow> string" where
  "extname env p =
     (let b = basename env p;
          after = rev (takeWhile (\<lambda>c. c \<noteq> CHR ''.'') (rev b))
      in if CHR ''.'' \<in> set b \<and> length after + 1 < length b \<and> b \<noteq> ''..''
         then CHR ''.'' # after else [])"

text \<open>\<^verbatim>\<open>client.sendNotification(method, {changes}).catch(err => console.error(msg, err))\<close>.\<close>

definition sendNotification ::
  "env \<Rightarrow> string \<Rightarrow> (string \<times> FileChangeType) list \<Rightarrow> string \<Rightarrow> unit io" where
  "sendNotification env method changes msg =
     bind (emit (SendNotification method changes)) (\<lambda>_.
     case sendFailure env of
       None \<Rightarrow> ret ()
     | Some err \<Rightarrow> emit (ConsoleError (msg @ '' '' @ message err)))"

definition getAllUrisInDir :: "env \<Rightarrow> uri \<Rightarrow> uri list io" where
  "getAllUrisInDir env dir = ret (findFiles env (fsPath dir))"

definition onFileEvent :: "env \<Rightarrow> uri \<Rightarrow> FileChangeType \<Rightarrow> unit io" where
  "onFileEvent env u type =
     (let isIgnored = list_ex (\<lambda>part. part \<in> IGNORED_PATH_SEGMENTS)
                        (rev (split_on (path_sep env) (fsPath u)))
      in if isIgnored then ret ()
         else if type = Deleted then
           (if extname env (fsPath u) = [] then
              sendNotification env ''workspace/didChangeWatchedFiles'' [(uriString u, type)]
                ''Error sending didChangeWatchedFiles for delete''
            else ret ())
         else
           bind (stat_isDirectory (fsPath u)) (\<lambda>isDirectory.
           if \<not> isDirectory then ret ()
           else
             bind (getAllUrisInDir env u) (\<lambda>files.
             if files \<noteq> [] then
               sendNotification env ''workspace/didChangeWatchedFiles''
                 (map (\<lambda>f. (uriString f, type)) files)
                 ''Error sending didChangeWatchedFiles for dir''
             else ret ())))"

text \<open>The events of a trace that are notifications to the session.\<close>

fun is_notification :: "event \<Rightarrow> bool" where
  "is_notification (SendNotification m cs) = True"
| "is_notification _ = False"

fun is_network :: "event \<Rightarrow> bool" where
  "is_network (HttpGet u) = True"
| "is_network _ = False"

fun is_error_message :: "event \<Rightarrow> bool" where
  "is_error_message (ShowErrorMessage m) = True"
| "is_error_message _ = False"

fun is_user_visible :: "event \<Rightarrow> bool" where
  "is_user_visible (ShowErrorMessage m) = True"
| "is_user_visible (ShowInformationMessage m items) = True"
| "is_user_visible (ShowProgress t) = True"
| "is_user_visible (ProgressReport m) = True"
| "is_user_visible _ = False"

section \<open>Vocabulary of the specification\<close>

text \<open>The documented artifact name
  \<^verbatim>\<open><binary-name>-<version>-<arch>-<os-triple>.<ext>\<close>: the architecture and the OS triple
  the specification lists for a supported pair.\<close>

definition spec_arch :: "string \<Rightarrow> string" where
  "spec_arch a = (if a = ''x64'' then ''x86_64'' else ''aarch64'')"

definition spec_os_triple :: "string \<Rightarrow> string" where
  "spec_os_triple p =
     (if p = ''darwin'' then ''apple-darwin''
      else if p = ''linux'' then ''unknown-linux-gnu'' else ''pc-windows-msvc'')"

text \<open>The storage layout: \<^verbatim>\<open><storage root>/<version-prefix><version>/<binary>\<close>, the
  binary with the suffix \<^verbatim>\<open>.exe\<close> on Windows only.\<close>

definition versionDirFor :: "env \<Rightarrow> string \<Rightarrow> string" where
  "versionDirFor env v = storagePath env @ [path_sep env] @ VERSION_PREFIX @ v"

definition binaryPathFor :: "env \<Rightarrow> string \<Rightarrow> string" where
  "binaryPathFor env v =
     versionDirFor env v @ [path_sep env] @ BINARY_NAME @
     (if platform env = ''win32'' then ''.exe'' else [])"

text \<open>The entries of the storage root whose names carry the version prefix.\<close>

definition versionEntries :: "env \<Rightarrow> world \<Rightarrow> string set" where
  "versionEntries env w =
     {n. n \<in> set (children env (fs w) (storagePath env)) \<and> startsWith n VERSION_PREFIX}"

text \<open>A cache hit: a version record whose binary is on disk.\<close>

definition cacheUsable :: "env \<Rightarrow> world \<Rightarrow> bool" where
  "cacheUsable env w =
     (case globalState w LATEST_VERSION_KEY of
        None \<Rightarrow> False
      | Some v \<Rightarrow> v \<noteq> [] \<and> map_of (fs w) (binaryPathFor env v) \<noteq> None)"

definition log_event :: "event \<Rightarrow> world \<Rightarrow> world" where
  "log_event ev w = w\<lparr>events := events w @ [ev]\<rparr>"

text \<open>The state in which one more task waits in the event loop.\<close>

definition started :: "task \<Rightarrow> world \<Rightarrow> world" where
  "started t w = w\<lparr>pending := pending w @ [t]\<rparr>"

definition downloadQuestion :: string where
  "downloadQuestion = ''FlatBuffers language server was not found. Download it?''"

definition downloadPrompt :: event where
  "downloadPrompt =
     ShowInformationMessage downloadQuestion [''Download & Auto-Update'', ''Download Once'']"

definition updateQuestion :: string where
  "updateQuestion =
     ''A new version of the FlatBuffers language server is available. [Release Notes](https://github.com/smpanaro/flatbuffers-language-server/releases)''"

definition updatePrompt :: event where
  "updatePrompt =
     ShowInformationMessage updateQuestion
       [''Download'', ''Download & Auto-Update'', ''Skip This Version'']"

text \<open>Every event a computation adds to the trace satisfies \<open>P\<close>, and the trace only grows.\<close>

definition emits :: "(event \<Rightarrow> bool) \<Rightarrow> 'a io \<Rightarrow> bool" where
  "emits P m = (\<forall>w. \<exists>es. events (snd (m w)) = events w @ es \<and> list_all P es)"

text \<open>The error messages the installer shows during an update.\<close>

fun update_failure_notice :: "env \<Rightarrow> event \<Rightarrow> bool" where
  "update_failure_notice env (ShowErrorMessage m) =
     (prefix ''Failed to update language server: '' m \<or>
      m = ''Unsupported platform: '' @ platform env @ ''-'' @ arch env)"
| "update_failure_notice env _ = True"

text \<open>The entries the reaper removes before it stops: the stale ones up to the first whose
  removal fails.\<close>

definition stale :: "string \<Rightarrow> string \<Rightarrow> bool" where
  "stale currentVersionDir entry =
     (startsWith entry VERSION_PREFIX \<and> entry \<noteq> currentVersionDir)"

definition removal_fails :: "env \<Rightarrow> string \<Rightarrow> string \<Rightarrow> string \<Rightarrow> bool" where
  "removal_fails env storage currentVersionDir entry =
     (stale currentVersionDir entry \<and>
      hostFailure env Remove (path_join env storage entry) \<noteq> None)"

definition reaped :: "env \<Rightarrow> string \<Rightarrow> string \<Rightarrow> string list \<Rightarrow> string list" where
  "reaped env storage currentVersionDir entries =
     filter (stale currentVersionDir)
       (takeWhile (\<lambda>e. \<not> removal_fails env storage currentVersionDir e) entries)"

text \<open>The state in which the background check has announced itself and queried the release
  index.\<close>

definition checked :: "string \<Rightarrow> world \<Rightarrow> world" where
  "checked cachedVersion w =
     w\<lparr>releaseQueries := Suc (releaseQueries w),
       events := events w @ [ConsoleLog (''Checking for updates. Current version: '' @ cachedVersion),
                             HttpGet releaseUrl]\<rparr>"

text \<open>The state in which the release index has been queried once more.\<close>

definition lookedUp :: "world \<Rightarrow> world" where
  "lookedUp w =
     w\<lparr>releaseQueries := Suc (releaseQueries w), events := events w @ [HttpGet releaseUrl]\<rparr>"

text \<open>The handler of the \<^verbatim>\<open>catch\<close> block of \<^verbatim>\<open>downloadLanguageServer\<close>.\<close>

definition showFailure :: "bool \<Rightarrow> exn \<Rightarrow> string option io" where
  "showFailure isUpdate error =
     bind (emit (ShowErrorMessage (''Failed to '' @ (if isUpdate then ''update'' else ''download'') @
                                   '' language server: '' @ error_text error))) (\<lambda>_.
     ret None)"

section \<open>Example surroundings\<close>

definition release_1_2_0 :: release where
  "release_1_2_0 =
     \<lparr>tag_name = ''v1.2.0'',
      assets = [\<lparr>name = ''flatbuffers-language-server-v1.2.0-x86_64-unknown-linux-gnu.tar.gz'',
                 browser_download_url = ''https://example.org/linux.tar.gz''\<rparr>]\<rparr>"

text \<open>A Linux machine with nothing on the search path, a working network and disk, a release
  \<^verbatim>\<open>v1.2.0\<close> with a well-formed archive, and a user who dismisses every prompt.\<close>

definition linux_env :: env where
  "linux_env =
     \<lparr>platform = ''linux'', arch = ''x64'', storagePath = ''/s'',
      which_lookup = (\<lambda>n. None),
      latestRelease = (\<lambda>n. Inr release_1_2_0),
      download = (\<lambda>u. Inr \<lparr>received = ''archive'', interruption = None\<rparr>),
      unzip = (\<lambda>c. ([], Some (Error ''not a zip''))),
      untar = (\<lambda>c. ([(''flatbuffers-language-server'', File ''binary'' 420)], None)),
      promptAnswer = (\<lambda>m. None),
      hostFailure = (\<lambda>op p. None),
      findFiles = (\<lambda>d. []),
      sendFailure = None,
      revealArgument = (\<lambda>d. d)\<rparr>"

definition empty_world :: world where
  "empty_world =
     \<lparr>fs = [], globalState = Map.empty, cfg_path = None, cfg_autoDownload = None,
      releaseQueries = 0, events = [],
      pending = []\<rparr>"

text \<open>A disk that holds version \<^verbatim>\<open>v1.2.0\<close>, recorded as the cached version.\<close>

definition installed_world :: world where
  "installed_world =
     \<lparr>fs = [(''/s'', Dir), (''/s/flatbuffers-language-server-v1.2.0'', Dir),
            (''/s/flatbuffers-language-server-v1.2.0/flatbuffers-language-server'',
             File ''binary'' 493)],
      globalState = [LATEST_VERSION_KEY \<mapsto> ''v1.2.0''],
      cfg_path = None, cfg_autoDownload = None, releaseQueries = 0, events = [],
      pending = []\<rparr>"

text \<open>A disk that holds version \<^verbatim>\<open>v1.2.0\<close>, not yet executable, next to the superseded
  \<^verbatim>\<open>v1.1.0\<close>.\<close>

definition upgraded_world :: world where
  "upgraded_world =
     \<lparr>fs = [(''/s'', Dir), (''/s/flatbuffers-language-server-v1.1.0'', Dir),
            (''/s/flatbuffers-language-server-v1.1.0/flatbuffers-language-server'',
             File ''old binary'' 493),
            (''/s/flatbuffers-language-server-v1.2.0'', Dir),
            (''/s/flatbuffers-language-server-v1.2.0/flatbuffers-language-server'',
             File ''binary'' 420)],
      globalState = [LATEST_VERSION_KEY \<mapsto> ''v1.2.0''],
      cfg_path = None, cfg_autoDownload = None, releaseQueries = 0, events = [],
      pending = []\<rparr>"

text \<open>A disk that holds the superseded versions \<^verbatim>\<open>v1.0.0\<close> and \<^verbatim>\<open>v1.1.0\<close>, and a machine on
  which the directory of \<^verbatim>\<open>v1.0.0\<close> cannot be removed.\<close>

definition stale_world :: world where
  "stale_world =
     \<lparr>fs = [(''/s'', Dir), (''/s/flatbuffers-language-server-v1.0.0'', Dir),
            (''/s/flatbuffers-language-server-v1.1.0'', Dir)],
      globalState = [LATEST_VERSION_KEY \<mapsto> ''v1.1.0''],
      cfg_path = None, cfg_autoDownload = None, releaseQueries = 0, events = [],
      pending = []\<rparr>"

definition locked_env :: env where
  "locked_env =
     linux_env\<lparr>hostFailure :=
       (\<lambda>op p. if op = Remove \<and> p = ''/s/flatbuffers-language-server-v1.0.0''
               then Some (Error ''EBUSY: resource busy or locked'') else None)\<rparr>"

text \<open>The same machine when the downloaded archive is corrupt, and when the connection
  drops after four bytes.\<close>

definition corrupt_env :: env where
  "corrupt_env = linux_env\<lparr>untar := (\<lambda>c. ([], Some (Error ''TAR_BAD_ARCHIVE'')))\<rparr>"

definition interrupted_env :: env where
  "interrupted_env =
     linux_env\<lparr>download := (\<lambda>u. Inr \<lparr>received = ''arch'',
                                         interruption = Some (Error ''ECONNRESET'')\<rparr>)\<rparr>"

section \<open>Unfolding rules\<close>

lemmas io_defs = bind_def ret_def throw_def try_catch_def enqueue_def emit_def

lemmas host_defs = fs_pathExists_def fs_ensureDir_def fs_chmod_def fs_remove_def fs_readdir_def
  pipeline_def extract_archive_def getLatestRelease_def axios_stream_def which_def
  globalStateGet_def globalStateUpdate_def config_get_path_def config_get_autoDownload_def
  showInformationMessage_def enableAutoUpdates_def stat_isDirectory_def

lemmas path_defs = path_join_def path_sep_def startsWith_def endsWith_def is_child_def
  children_def delete_tree_def suffix_to_prefix

lemmas const_defs = BINARY_NAME_def VERSION_PREFIX_def LATEST_VERSION_KEY_def
  LATEST_SKIPPED_VERSION_KEY_def AUTO_DOWNLOAD_CONFIG_def releaseUrl_def GITHUB_REPO_def

lemmas example_defs = linux_env_def empty_world_def installed_world_def release_1_2_0_def
  upgraded_world_def stale_world_def locked_env_def corrupt_env_def interrupted_env_def

lemmas program_defs = downloadLanguageServer_def downloadAndExtract_def finishInstall_def
  cleanupOldVersions_def getAssetName_def checkForUpdatesInBackground_def checkForUpdates_started_def
      checkForUpdates_resumed_def
  getLanguageServerPath_def useCachedVersion_def initialDownload_def

section \<open>Helper lemmas\<close>

subsection \<open>Traces\<close>

lemma emitsI:
  assumes "\<And>w. \<exists>es. events (snd (m w)) = events w @ es \<and> list_all P es"
  shows "emits P m"
  using assms by (simp add: emits_def)

lemma emits_ret: "emits P (ret x)"
  by (simp add: emits_def ret_def)

lemma emits_throw: "emits P (throw e)"
  by (simp add: emits_def throw_def)

lemma emits_emit: "P ev \<Longrightarrow> emits P (emit ev)"
  by (simp add: emits_def emit_def)

lemma emits_bind:
  assumes "emits P m" "\<And>x. emits P (f x)"
  shows "emits P (bind m f)"
proof (rule emitsI)
  fix w
  obtain r w1 where r: "m w = (r, w1)" by (cases "m w")
  from assms(1) obtain es where es: "events w1 = events w @ es" "list_all P es"
    using r by (auto simp: emits_def dest: spec[of _ w])
  show "\<exists>es. events (snd (bind m f w)) = events w @ es \<and> list_all P es"
  proof (cases r)
    case (Inl e)
    then show ?thesis using r es by (auto simp: bind_def)
  next
    case (Inr x)
    from assms(2)[of x] obtain es' where
      "events (snd (f x w1)) = events w1 @ es'" "list_all P es'"
      by (auto simp: emits_def dest: spec[of _ w1])
    then show ?thesis using r es Inr by (auto simp: bind_def)
  qed
qed

lemma emits_try_catch:
  assumes "emits P m" "\<And>e. emits P (h e)"
  shows "emits P (try_catch m h)"
proof (rule emitsI)
  fix w
  obtain r w1 where r: "m w = (r, w1)" by (cases "m w")
  from assms(1) obtain es where es: "events w1 = events w @ es" "list_all P es"
    using r by (auto simp: emits_def dest: spec[of _ w])
  show "\<exists>es. events (snd (try_catch m h w)) = events w @ es \<and> list_all P es"
  proof (cases r)
    case (Inr x)
    then show ?thesis using r es by (auto simp: try_catch_def)
  next
    case (Inl e)
    from assms(2)[of e] obtain es' where
      "events (snd (h e w1)) = events w1 @ es'" "list_all P es'"
      by (auto simp: emits_def dest: spec[of _ w1])
    then show ?thesis using r es Inl by (auto simp: try_catch_def)
  qed
qed

lemma emits_enqueue: "emits P (enqueue t)"
  by (simp add: emits_def enqueue_def)

lemma emits_if: "emits P a \<Longrightarrow> emits P b \<Longrightarrow> emits P (if c then a else b)"
  by simp

lemma emits_case_option:
  "emits P a \<Longrightarrow> (\<And>x. emits P (b x)) \<Longrightarrow> emits P (case v of None \<Rightarrow> a | Some x \<Rightarrow> b x)"
  by (cases v) simp_all

lemma emits_case_sum:
  "(\<And>x. emits P (a x)) \<Longrightarrow> (\<And>x. emits P (b x)) \<Longrightarrow> emits P (case v of Inl x \<Rightarrow> a x | Inr x \<Rightarrow> b x)"
  by (cases v) simp_all

lemma emits_silent:
  assumes "\<And>w. events (snd (m w)) = events w"
  shows "emits P m"
  using assms by (simp add: emits_def)

lemma emits_fs_ensureDir: "emits P (fs_ensureDir env p)"
  by (rule emits_silent) (simp add: fs_ensureDir_def split: option.splits node.splits)

lemma emits_fs_chmod: "emits P (fs_chmod env p m)"
  by (rule emits_silent) (simp add: fs_chmod_def split: option.splits node.splits)

lemma emits_fs_remove: "emits P (fs_remove env p)"
  by (rule emits_silent) (simp add: fs_remove_def split: option.splits)

lemma emits_fs_readdir: "emits P (fs_readdir env p)"
  by (rule emits_silent) (simp add: fs_readdir_def split: option.splits node.splits)

lemma emits_fs_pathExists: "emits P (fs_pathExists p)"
  by (rule emits_silent) (simp add: fs_pathExists_def)

lemma emits_pipeline: "emits P (pipeline env st p)"
  by (rule emits_silent) (simp add: pipeline_def Let_def split: option.splits)

lemma emits_extract_archive: "emits P (extract_archive env un a d)"
  by (rule emits_silent) (simp add: extract_archive_def Let_def split: option.splits node.splits)

lemma emits_globalStateGet: "emits P (globalStateGet k)"
  by (rule emits_silent) (simp add: globalStateGet_def)

lemma emits_globalStateUpdate: "emits P (globalStateUpdate env k v)"
  by (rule emits_silent) (simp add: globalStateUpdate_def split: option.splits)

lemma emits_getLatestRelease: "P (HttpGet releaseUrl) \<Longrightarrow> emits P (getLatestRelease env)"
  by (simp add: emits_def getLatestRelease_def Let_def split: sum.splits)

lemma emits_axios_stream: "P (HttpGet url) \<Longrightarrow> emits P (axios_stream env url)"
  unfolding axios_stream_def
  by (intro emits_bind emits_emit emits_case_sum emits_throw emits_ret)

lemma emits_showInformationMessage:
  "P (ShowInformationMessage msg items) \<Longrightarrow> emits P (showInformationMessage env msg items)"
  unfolding showInformationMessage_def
  by (intro emits_bind emits_emit emits_ret)

lemma emits_enableAutoUpdates:
  "P (ShowInformationMessage ''FlatBuffers auto-update enabled.'' []) \<Longrightarrow> emits P (enableAutoUpdates env)"
  unfolding enableAutoUpdates_def
  by (intro emits_bind emits_emit emits_silent) (simp split: option.splits)

lemma emits_cleanup_loop:
  assumes "\<And>s. P (ConsoleLog s)"
  shows "emits P (cleanup_loop env storage cur entries)"
proof (induction entries)
  case Nil
  show ?case by (simp add: emits_ret)
next
  case (Cons e es)
  show ?case
    unfolding cleanup_loop.simps
    by (intro emits_bind emits_if emits_emit emits_fs_remove emits_ret assms Cons)
qed

lemma emits_cleanupOldVersions:
  assumes "\<And>s. P (ConsoleLog s)" "\<And>s. P (ConsoleError s)"
  shows "emits P (cleanupOldVersions env storage cur)"
  unfolding cleanupOldVersions_def
  by (intro emits_try_catch emits_bind emits_fs_readdir emits_cleanup_loop emits_emit assms)

lemmas emits_intros = emits_bind emits_try_catch emits_enqueue emits_if emits_case_option
  emits_case_sum emits_ret emits_throw emits_fs_ensureDir emits_fs_chmod emits_fs_remove
  emits_fs_readdir emits_fs_pathExists emits_pipeline emits_extract_archive
  emits_globalStateGet emits_globalStateUpdate emits_getLatestRelease emits_axios_stream
  emits_showInformationMessage emits_enableAutoUpdates emits_cleanupOldVersions emits_emit

lemma emits_downloadLanguageServer:
  assumes "\<And>e. \<not> is_error_message e \<Longrightarrow> P e"
    and "\<And>t. P (ShowErrorMessage (''Failed to '' @ (if isUpdate then ''update'' else ''download'') @
                                   '' language server: '' @ t))"
    and "P (ShowErrorMessage (''Unsupported platform: '' @ platform env @ ''-'' @ arch env))"
  shows "emits P (downloadLanguageServer env isUpdate)"
  unfolding downloadLanguageServer_def downloadAndExtract_def finishInstall_def Let_def
  by (intro emits_intros assms) simp_all

section \<open>Claims about the selector, the orchestrator and the file watcher\<close>

subsection \<open>C5: the Platform Asset Selector\<close>

text \<open>C5. \<^verbatim>\<open>getAssetName\<close> depends on the operating system, the architecture and the version
  only. For the six supported pairs it returns exactly
  \<^verbatim>\<open><binary-name>-<version>-<arch>-<os-triple>.<ext>\<close>, with \<^verbatim>\<open>zip\<close> exactly for the Windows
  triple and \<^verbatim>\<open>tar.gz\<close> otherwise; for every other pair it returns nothing.\<close>

theorem getAssetName_exact:
  "getAssetName env version =
     (if platform env \<in> {''darwin'', ''linux'', ''win32''} \<and> arch env \<in> {''x64'', ''arm64''}
      then Some (BINARY_NAME @ ''-'' @ version @ ''-'' @ spec_arch (arch env) @ ''-'' @
                 spec_os_triple (platform env) @ ''.'' @
                 (if spec_os_triple (platform env) = ''pc-windows-msvc'' then ''zip'' else ''tar.gz''))
      else None)"
  by (simp add: getAssetName_def spec_arch_def spec_os_triple_def)

theorem getAssetName_exact_witness:
  "getAssetName linux_env ''v1.2.0'' =
     Some ''flatbuffers-language-server-v1.2.0-x86_64-unknown-linux-gnu.tar.gz'' \<and>
   getAssetName (linux_env\<lparr>platform := ''win32'', arch := ''arm64''\<rparr>) ''v1.2.0'' =
     Some ''flatbuffers-language-server-v1.2.0-aarch64-pc-windows-msvc.zip'' \<and>
   getAssetName (linux_env\<lparr>platform := ''freebsd''\<rparr>) ''v1.2.0'' = None \<and>
   getAssetName (linux_env\<lparr>arch := ''ia32''\<rparr>) ''v1.2.0'' = None"
  using getAssetName_exact [of linux_env "''v1.2.0''"]
    getAssetName_exact [of "linux_env\<lparr>platform := ''win32'', arch := ''arm64''\<rparr>" "''v1.2.0''"]
    getAssetName_exact [of "linux_env\<lparr>platform := ''freebsd''\<rparr>" "''v1.2.0''"]
    getAssetName_exact [of "linux_env\<lparr>arch := ''ia32''\<rparr>" "''v1.2.0''"]
  by (simp add: linux_env_def spec_arch_def spec_os_triple_def BINARY_NAME_def)

subsection \<open>C6: the orchestrator's priority order\<close>

lemma autoDownload_default:
  "(case cfg_autoDownload w of None \<Rightarrow> False | Some b \<Rightarrow> b) = (cfg_autoDownload w = Some True)"
  by (cases "cfg_autoDownload w") auto





lemma orchestrator_cache_miss:
  assumes "\<not> truthy (cfg_path w)" "which_lookup env BINARY_NAME = None" "\<not> cacheUsable env w"
  shows "getLanguageServerPath env w = initialDownload env (cfg_autoDownload w = Some True) w"
  using assms
  by (auto simp add: getLanguageServerPath_def useCachedVersion_def io_defs
      config_get_path_def which_def config_get_autoDownload_def globalStateGet_def
      cacheUsable_def fs_pathExists_def binaryPathFor_def versionDirFor_def path_join_def Let_def
      autoDownload_default split: option.splits)




lemma initialDownload_cancel:
  "promptAnswer env downloadQuestion \<notin> {Some ''Download & Auto-Update'', Some ''Download Once''} \<Longrightarrow>
   initialDownload env False w = (Inr None, log_event downloadPrompt w)"
  by (auto simp add: initialDownload_def log_event_def downloadPrompt_def downloadQuestion_def
      io_defs showInformationMessage_def split: option.splits)



subsection \<open>C8: the default of the auto-download setting\<close>

lemma emits_anything_downloadLanguageServer: "emits (\<lambda>e. True) (downloadLanguageServer env u)"
  by (rule emits_downloadLanguageServer) simp_all

lemma emits_anything_initialDownload: "emits (\<lambda>e. True) (initialDownload env a)"
  unfolding initialDownload_def
  by (intro emits_intros emits_anything_downloadLanguageServer) simp_all

lemma initialDownload_prompts_first:
  "\<exists>rest. events (snd (initialDownload env False w)) = events w @ downloadPrompt # rest"
proof -
  let ?k = "\<lambda>result. if result = Some ''Download & Auto-Update'' then
          bind (enableAutoUpdates env) (\<lambda>_. downloadLanguageServer env False)
        else if result = Some ''Download Once'' then downloadLanguageServer env False
        else ret None"
  let ?r = "case promptAnswer env downloadQuestion of None \<Rightarrow> None
            | Some a \<Rightarrow> if a \<in> set [''Download & Auto-Update'', ''Download Once''] then Some a else None"
  have step: "initialDownload env False w = ?k ?r (log_event downloadPrompt w)"
    by (simp add: initialDownload_def log_event_def downloadPrompt_def downloadQuestion_def
        io_defs showInformationMessage_def)
  have "emits (\<lambda>e. True) (?k ?r)"
    by (intro emits_intros emits_anything_downloadLanguageServer) simp_all
  then obtain es where
    "events (snd (?k ?r (log_event downloadPrompt w))) = events (log_event downloadPrompt w) @ es"
    unfolding emits_def by blast
  then show ?thesis
    by (simp add: step log_event_def)
qed

text \<open>C8. When the auto-download setting has never been set, \<^verbatim>\<open>getLanguageServerPath\<close> reads it
  as \<^verbatim>\<open>false\<close>: on a cache miss the first thing it does is to show the download prompt, and
  when the prompt is dismissed nothing is fetched and nothing is returned.\<close>

theorem autoDownload_defaults_to_false:
  assumes "cfg_autoDownload w = None" "\<not> truthy (cfg_path w)"
    "which_lookup env BINARY_NAME = None" "\<not> cacheUsable env w"
  shows "config_get_autoDownload w = (Inr False, w) \<and>
         (\<exists>rest. events (snd (getLanguageServerPath env w)) = events w @ downloadPrompt # rest) \<and>
         (promptAnswer env downloadQuestion = None \<longrightarrow>
            getLanguageServerPath env w = (Inr None, log_event downloadPrompt w))"
proof (intro conjI impI)
  show "config_get_autoDownload w = (Inr False, w)"
    using assms(1) by (simp add: config_get_autoDownload_def)
  have miss: "getLanguageServerPath env w = initialDownload env False w"
    using assms by (simp add: orchestrator_cache_miss)
  show "\<exists>rest. events (snd (getLanguageServerPath env w)) = events w @ downloadPrompt # rest"
    unfolding miss by (rule initialDownload_prompts_first)
  assume "promptAnswer env downloadQuestion = None"
  then show "getLanguageServerPath env w = (Inr None, log_event downloadPrompt w)"
    unfolding miss by (simp add: initialDownload_cancel)
qed

theorem autoDownload_defaults_to_false_witness:
  "cfg_autoDownload empty_world = None \<and>
   getLanguageServerPath linux_env empty_world = (Inr None, log_event downloadPrompt empty_world) \<and>
   filter is_network (events (snd (getLanguageServerPath linux_env empty_world))) = []"
  using autoDownload_defaults_to_false [of empty_world linux_env]
  by (simp add: empty_world_def linux_env_def truthy_def cacheUsable_def log_event_def
      downloadPrompt_def)

subsection \<open>C10: forwarding of file events\<close>

text \<open>C10. \<^verbatim>\<open>onFileEvent\<close> forwards a delete event only when the deleted path has an empty
  extension, and then as that single path with type \<^verbatim>\<open>Deleted\<close>; a delete event whose path
  has an extension does nothing; an event of any type whose path has an ignored segment does
  nothing.\<close>

theorem onFileEvent_delete_and_ignored:
  "(\<not> (\<exists>seg \<in> set (split_on (path_sep env) (fsPath u)). seg \<in> IGNORED_PATH_SEGMENTS) \<and>
    extname env (fsPath u) = [] \<longrightarrow>
      filter is_notification (emitted w (snd (onFileEvent env u Deleted w))) =
        [SendNotification ''workspace/didChangeWatchedFiles'' [(uriString u, Deleted)]]) \<and>
   (extname env (fsPath u) \<noteq> [] \<longrightarrow> onFileEvent env u Deleted w = (Inr (), w)) \<and>
   ((\<exists>seg \<in> set (split_on (path_sep env) (fsPath u)). seg \<in> IGNORED_PATH_SEGMENTS) \<longrightarrow>
      onFileEvent env u t w = (Inr (), w))"
  by (auto simp add: onFileEvent_def sendNotification_def emitted_def io_defs list_ex_iff Let_def
      split: option.splits)

theorem onFileEvent_delete_and_ignored_witness:
  "filter is_notification
     (emitted empty_world
        (snd (onFileEvent linux_env \<lparr>fsPath = ''/w/schemas'', uriString = ''file:///w/schemas''\<rparr>
                Deleted empty_world))) =
     [SendNotification ''workspace/didChangeWatchedFiles'' [(''file:///w/schemas'', Deleted)]] \<and>
   onFileEvent linux_env \<lparr>fsPath = ''/w/a.fbs'', uriString = ''file:///w/a.fbs''\<rparr> Deleted
     empty_world = (Inr (), empty_world) \<and>
   onFileEvent linux_env \<lparr>fsPath = ''/w/node_modules/x'', uriString = ''file:///w/node_modules/x''\<rparr>
     Created empty_world = (Inr (), empty_world)"
proof (intro conjI)
  show "filter is_notification
     (emitted empty_world
        (snd (onFileEvent linux_env \<lparr>fsPath = ''/w/schemas'', uriString = ''file:///w/schemas''\<rparr>
                Deleted empty_world))) =
     [SendNotification ''workspace/didChangeWatchedFiles'' [(''file:///w/schemas'', Deleted)]]"
    using onFileEvent_delete_and_ignored
      [of linux_env "\<lparr>fsPath = ''/w/schemas'', uriString = ''file:///w/schemas''\<rparr>" empty_world]
    by (simp add: linux_env_def path_sep_def IGNORED_PATH_SEGMENTS_def extname_def basename_def
        is_separator_def)
  show "onFileEvent linux_env \<lparr>fsPath = ''/w/a.fbs'', uriString = ''file:///w/a.fbs''\<rparr> Deleted
     empty_world = (Inr (), empty_world)"
    using onFileEvent_delete_and_ignored
      [of linux_env "\<lparr>fsPath = ''/w/a.fbs'', uriString = ''file:///w/a.fbs''\<rparr>" empty_world]
    by (simp add: linux_env_def extname_def basename_def is_separator_def)
  show "onFileEvent linux_env \<lparr>fsPath = ''/w/node_modules/x'', uriString = ''file:///w/node_modules/x''\<rparr>
     Created empty_world = (Inr (), empty_world)"
    using onFileEvent_delete_and_ignored
      [of linux_env "\<lparr>fsPath = ''/w/node_modules/x'', uriString = ''file:///w/node_modules/x''\<rparr>"
          empty_world Created]
    by (simp add: linux_env_def path_sep_def IGNORED_PATH_SEGMENTS_def)
qed

subsection \<open>C7: the skipped version\<close>

lemma check_up_to_date:
  assumes "latestRelease env (releaseQueries w) = Inr rel" "tag_name rel = cachedVersion"
  shows "checkForUpdatesInBackground env cachedVersion a w =
           (Inr (), log_event (ConsoleLog ''Language server is up to date.'') (checked cachedVersion w))"
  using assms
  by (simp add: checkForUpdatesInBackground_def checkForUpdates_started_def
      checkForUpdates_resumed_def checked_def log_event_def io_defs
      getLatestRelease_def globalStateGet_def Let_def)

lemma check_skipped:
  assumes "latestRelease env (releaseQueries w) = Inr rel" "tag_name rel \<noteq> cachedVersion"
    "globalState w LATEST_SKIPPED_VERSION_KEY = Some (tag_name rel)"
  shows "checkForUpdatesInBackground env cachedVersion False w =
           (Inr (), log_event (ConsoleLog (''Latest version was skipped ('' @ tag_name rel @ '').''))
                      (log_event (ConsoleLog (''New version found: '' @ tag_name rel))
                         (checked cachedVersion w)))"
  using assms
  by (simp add: checkForUpdatesInBackground_def checkForUpdates_started_def
      checkForUpdates_resumed_def checked_def log_event_def io_defs
      getLatestRelease_def globalStateGet_def Let_def)

lemma check_prompts:
  assumes "latestRelease env (releaseQueries w) = Inr rel" "tag_name rel \<noteq> cachedVersion"
    "globalState w LATEST_SKIPPED_VERSION_KEY \<noteq> Some (tag_name rel)" "tag_name rel \<noteq> []"
  shows "checkForUpdatesInBackground env cachedVersion False w =
           try_catch
             (bind (showInformationMessage env updateQuestion
                      [''Download'', ''Download & Auto-Update'', ''Skip This Version'']) (\<lambda>result.
              if result = Some ''Download & Auto-Update'' then
                bind (enableAutoUpdates env) (\<lambda>_.
                bind (downloadLanguageServer env True) (\<lambda>_. ret ()))
              else if result = Some ''Download'' then
                bind (downloadLanguageServer env True) (\<lambda>_. ret ())
              else if result = Some ''Skip This Version'' then
                bind (globalStateUpdate env LATEST_SKIPPED_VERSION_KEY (tag_name rel)) (\<lambda>_.
                emit (ConsoleLog (''Setting skipped version to '' @ tag_name rel @ ''.'')))
              else ret ()))
             (\<lambda>error. emit (ConsoleError (''Failed to check for updates in the background: '' @
                                          message error)))
             (log_event (ConsoleLog (''New version found: '' @ tag_name rel))
                (checked cachedVersion w))"
  using assms
  by (auto simp add: checkForUpdatesInBackground_def checkForUpdates_started_def
      checkForUpdates_resumed_def checked_def log_event_def io_defs
      getLatestRelease_def globalStateGet_def Let_def updateQuestion_def split: option.splits)

lemma check_auto:
  assumes "latestRelease env (releaseQueries w) = Inr rel" "tag_name rel \<noteq> cachedVersion"
  shows "checkForUpdatesInBackground env cachedVersion True w =
           try_catch (bind (downloadLanguageServer env True) (\<lambda>_. ret ()))
             (\<lambda>error. emit (ConsoleError (''Failed to check for updates in the background: '' @
                                          message error)))
             (log_event (ConsoleLog (''New version found: '' @ tag_name rel))
                (checked cachedVersion w))"
  using assms
  by (simp add: checkForUpdatesInBackground_def checkForUpdates_started_def
      checkForUpdates_resumed_def checked_def log_event_def io_defs
      getLatestRelease_def globalStateGet_def Let_def)

text \<open>C7. In the background update check with auto-download disabled: choosing
  \<^verbatim>\<open>Skip This Version\<close> stores the offered version as the skipped version; a check that finds
  the stored skipped version as the latest shows nothing to the user; a check that finds a
  version (a non-empty tag) different from the cached and from the stored skipped one shows
  the update prompt. With auto-download enabled a different version is installed without a
  prompt, whatever was skipped.\<close>

theorem skip_state_per_version:
  assumes "latestRelease env (releaseQueries w) = Inr rel"
  shows "(tag_name rel \<noteq> cachedVersion \<and> tag_name rel \<noteq> [] \<and>
          globalState w LATEST_SKIPPED_VERSION_KEY \<noteq> Some (tag_name rel) \<and>
          promptAnswer env updateQuestion = Some ''Skip This Version'' \<and>
          hostFailure env GlobalStateUpdate LATEST_SKIPPED_VERSION_KEY = None \<longrightarrow>
            globalState (snd (checkForUpdatesInBackground env cachedVersion False w))
              LATEST_SKIPPED_VERSION_KEY = Some (tag_name rel)) \<and>
         (globalState w LATEST_SKIPPED_VERSION_KEY = Some (tag_name rel) \<longrightarrow>
            filter is_user_visible
              (emitted w (snd (checkForUpdatesInBackground env cachedVersion False w))) = []) \<and>
         (tag_name rel \<noteq> cachedVersion \<and> tag_name rel \<noteq> [] \<and>
          globalState w LATEST_SKIPPED_VERSION_KEY \<noteq> Some (tag_name rel) \<longrightarrow>
            (\<exists>rest. emitted w (snd (checkForUpdatesInBackground env cachedVersion False w)) =
                      [ConsoleLog (''Checking for updates. Current version: '' @ cachedVersion),
                       HttpGet releaseUrl,
                       ConsoleLog (''New version found: '' @ tag_name rel),
                       updatePrompt] @ rest)) \<and>
         (tag_name rel \<noteq> cachedVersion \<longrightarrow>
            checkForUpdatesInBackground env cachedVersion True w =
              try_catch (bind (downloadLanguageServer env True) (\<lambda>_. ret ()))
                (\<lambda>error. emit (ConsoleError (''Failed to check for updates in the background: '' @
                                             message error)))
                (log_event (ConsoleLog (''New version found: '' @ tag_name rel))
                   (checked cachedVersion w)))"
proof (intro conjI impI)
  assume h: "tag_name rel \<noteq> cachedVersion \<and> tag_name rel \<noteq> [] \<and>
          globalState w LATEST_SKIPPED_VERSION_KEY \<noteq> Some (tag_name rel) \<and>
          promptAnswer env updateQuestion = Some ''Skip This Version'' \<and>
          hostFailure env GlobalStateUpdate LATEST_SKIPPED_VERSION_KEY = None"
  then have "checkForUpdatesInBackground env cachedVersion False w = 
      (Inr (), log_event (ConsoleLog (''Setting skipped version to '' @ tag_name rel @ ''.''))
         ((log_event updatePrompt (log_event (ConsoleLog (''New version found: '' @ tag_name rel))
                (checked cachedVersion w)))
           \<lparr>globalState := (globalState w)(LATEST_SKIPPED_VERSION_KEY \<mapsto> tag_name rel)\<rparr>))"
    using assms
    by (simp add: check_prompts)
       (simp add: io_defs showInformationMessage_def globalStateUpdate_def log_event_def
          checked_def updatePrompt_def)
  then show "globalState (snd (checkForUpdatesInBackground env cachedVersion False w))
              LATEST_SKIPPED_VERSION_KEY = Some (tag_name rel)"
    by (simp add: log_event_def)
next
  assume "globalState w LATEST_SKIPPED_VERSION_KEY = Some (tag_name rel)"
  then show "filter is_user_visible
              (emitted w (snd (checkForUpdatesInBackground env cachedVersion False w))) = []"
    using assms
    by (cases "tag_name rel = cachedVersion")
       (simp_all add: check_up_to_date check_skipped checked_def log_event_def emitted_def)
next
  assume h: "tag_name rel \<noteq> cachedVersion \<and> tag_name rel \<noteq> [] \<and>
          globalState w LATEST_SKIPPED_VERSION_KEY \<noteq> Some (tag_name rel)"
  let ?w1 = "log_event (ConsoleLog (''New version found: '' @ tag_name rel)) (checked cachedVersion w)"
  let ?r = "case promptAnswer env updateQuestion of None \<Rightarrow> None
            | Some a \<Rightarrow> if a \<in> set [''Download'', ''Download & Auto-Update'', ''Skip This Version'']
                        then Some a else None"
  let ?k = "\<lambda>result. if result = Some ''Download & Auto-Update'' then
                bind (enableAutoUpdates env) (\<lambda>_.
                bind (downloadLanguageServer env True) (\<lambda>_. ret ()))
              else if result = Some ''Download'' then
                bind (downloadLanguageServer env True) (\<lambda>_. ret ())
              else if result = Some ''Skip This Version'' then
                bind (globalStateUpdate env LATEST_SKIPPED_VERSION_KEY (tag_name rel)) (\<lambda>_.
                emit (ConsoleLog (''Setting skipped version to '' @ tag_name rel @ ''.'')))
              else ret ()"
  let ?h = "\<lambda>error. emit (ConsoleError (''Failed to check for updates in the background: '' @
                                          message error))"
  have step: "checkForUpdatesInBackground env cachedVersion False w =
                try_catch (?k ?r) ?h (log_event updatePrompt ?w1)"
    using h assms
    by (simp add: check_prompts)
       (simp add: io_defs showInformationMessage_def log_event_def updatePrompt_def)
  have "emits (\<lambda>e. True) (try_catch (?k ?r) ?h)"
    by (intro emits_intros emits_downloadLanguageServer) simp_all
  then obtain es where
    "events (snd (try_catch (?k ?r) ?h (log_event updatePrompt ?w1))) =
       events (log_event updatePrompt ?w1) @ es"
    unfolding emits_def by blast
  then show "\<exists>rest. emitted w (snd (checkForUpdatesInBackground env cachedVersion False w)) =
                      [ConsoleLog (''Checking for updates. Current version: '' @ cachedVersion),
                       HttpGet releaseUrl,
                       ConsoleLog (''New version found: '' @ tag_name rel),
                       updatePrompt] @ rest"
    by (simp add: step emitted_def log_event_def checked_def)
next
  assume "tag_name rel \<noteq> cachedVersion"
  then show "checkForUpdatesInBackground env cachedVersion True w =
              try_catch (bind (downloadLanguageServer env True) (\<lambda>_. ret ()))
                (\<lambda>error. emit (ConsoleError (''Failed to check for updates in the background: '' @
                                             message error)))
                (log_event (ConsoleLog (''New version found: '' @ tag_name rel))
                   (checked cachedVersion w))"
    using assms by (rule check_auto[rotated])
qed


theorem skip_state_per_version_witness:
  "globalState
     (snd (checkForUpdatesInBackground
             (linux_env\<lparr>promptAnswer := (\<lambda>m. Some ''Skip This Version'')\<rparr>) ''v1.1.0'' False
             empty_world))
     LATEST_SKIPPED_VERSION_KEY = Some ''v1.2.0'' \<and>
   filter is_user_visible
     (emitted (empty_world\<lparr>globalState := [LATEST_SKIPPED_VERSION_KEY \<mapsto> ''v1.2.0'']\<rparr>)
        (snd (checkForUpdatesInBackground linux_env ''v1.1.0'' False
                (empty_world\<lparr>globalState := [LATEST_SKIPPED_VERSION_KEY \<mapsto> ''v1.2.0'']\<rparr>)))) = [] \<and>
   (\<exists>rest. emitted empty_world
              (snd (checkForUpdatesInBackground linux_env ''v1.1.0'' False empty_world)) =
            [ConsoleLog ''Checking for updates. Current version: v1.1.0'',
             HttpGet releaseUrl,
             ConsoleLog ''New version found: v1.2.0'',
             updatePrompt] @ rest) \<and>
   checkForUpdatesInBackground linux_env ''v1.1.0'' True empty_world =
     try_catch (bind (downloadLanguageServer linux_env True) (\<lambda>_. ret ()))
       (\<lambda>error. emit (ConsoleError (''Failed to check for updates in the background: '' @
                                    message error)))
       (log_event (ConsoleLog ''New version found: v1.2.0'') (checked ''v1.1.0'' empty_world))"
proof (intro conjI)
  show "globalState
     (snd (checkForUpdatesInBackground
             (linux_env\<lparr>promptAnswer := (\<lambda>m. Some ''Skip This Version'')\<rparr>) ''v1.1.0'' False
             empty_world))
     LATEST_SKIPPED_VERSION_KEY = Some ''v1.2.0''"
    using skip_state_per_version
      [of "linux_env\<lparr>promptAnswer := (\<lambda>m. Some ''Skip This Version'')\<rparr>" empty_world
          release_1_2_0 "''v1.1.0''"]
    by (simp add: linux_env_def empty_world_def release_1_2_0_def)
  show "filter is_user_visible
     (emitted (empty_world\<lparr>globalState := [LATEST_SKIPPED_VERSION_KEY \<mapsto> ''v1.2.0'']\<rparr>)
        (snd (checkForUpdatesInBackground linux_env ''v1.1.0'' False
                (empty_world\<lparr>globalState := [LATEST_SKIPPED_VERSION_KEY \<mapsto> ''v1.2.0'']\<rparr>)))) = []"
    using skip_state_per_version
      [of linux_env "empty_world\<lparr>globalState := [LATEST_SKIPPED_VERSION_KEY \<mapsto> ''v1.2.0'']\<rparr>"
          release_1_2_0 "''v1.1.0''"]
    by (simp add: linux_env_def empty_world_def release_1_2_0_def)
  show "\<exists>rest. emitted empty_world
              (snd (checkForUpdatesInBackground linux_env ''v1.1.0'' False empty_world)) =
            [ConsoleLog ''Checking for updates. Current version: v1.1.0'',
             HttpGet releaseUrl,
             ConsoleLog ''New version found: v1.2.0'',
             updatePrompt] @ rest"
    using skip_state_per_version [of linux_env empty_world release_1_2_0 "''v1.1.0''"]
    by (simp add: linux_env_def empty_world_def release_1_2_0_def)
  show "checkForUpdatesInBackground linux_env ''v1.1.0'' True empty_world =
     try_catch (bind (downloadLanguageServer linux_env True) (\<lambda>_. ret ()))
       (\<lambda>error. emit (ConsoleError (''Failed to check for updates in the background: '' @
                                    message error)))
       (log_event (ConsoleLog ''New version found: v1.2.0'') (checked ''v1.1.0'' empty_world))"
    using skip_state_per_version [of linux_env empty_world release_1_2_0 "''v1.1.0''"]
    by (simp add: linux_env_def empty_world_def release_1_2_0_def)
qed

section \<open>The file system, the reaper and the installer\<close>

subsection \<open>Lookups after file operations\<close>

lemma map_of_delete_tree:
  "map_of (delete_tree env p f) q =
     (if q = p \<or> prefix (p @ [path_sep env]) q then None else map_of f q)"
  by (induction f) (auto simp: delete_tree_def)

lemma map_of_extracted:
  "\<not> prefix (dir @ [path_sep env]) q \<Longrightarrow>
   map_of (fold (\<lambda>(n, nd). AList.update (path_join env dir n) nd) es f) q = map_of f q"
proof (induction es arbitrary: f)
  case Nil
  then show ?case by simp
next
  case (Cons e es)
  obtain n nd where e: "e = (n, nd)" by (cases e)
  have "q \<noteq> path_join env dir n"
    using Cons.prems by (auto simp: path_join_def)
  then show ?case
    using Cons by (simp add: e update_conv')
qed

lemma is_child_join:
  "is_child env d q \<longleftrightarrow>
     (\<exists>n. q = d @ [path_sep env] @ n \<and> n \<noteq> [] \<and> path_sep env \<notin> set n)"
proof
  assume c: "is_child env d q"
  then obtain n where n: "q = (d @ [path_sep env]) @ n"
    by (auto simp: is_child_def prefix_def)
  with c show "\<exists>n. q = d @ [path_sep env] @ n \<and> n \<noteq> [] \<and> path_sep env \<notin> set n"
    by (auto simp: is_child_def)
next
  assume "\<exists>n. q = d @ [path_sep env] @ n \<and> n \<noteq> [] \<and> path_sep env \<notin> set n"
  then show "is_child env d q"
    by (auto simp: is_child_def)
qed

lemma set_children:
  "set (children env f d) =
     {n. n \<noteq> [] \<and> path_sep env \<notin> set n \<and> map_of f (d @ [path_sep env] @ n) \<noteq> None}"
proof (intro set_eqI iffI)
  fix n
  assume "n \<in> set (children env f d)"
  then obtain q nd where q: "(q, nd) \<in> set f" "is_child env d q" "n = drop (length d + 1) q"
    by (auto simp: children_def)
  from q(2) obtain m where m: "q = d @ [path_sep env] @ m" "m \<noteq> []" "path_sep env \<notin> set m"
    by (auto simp: is_child_join)
  have "n = m" using q(3) m(1) by simp
  moreover have "map_of f q \<noteq> None"
    using q(1) by (metis map_of_eq_None_iff fst_conv image_eqI)
  ultimately show "n \<in> {n. n \<noteq> [] \<and> path_sep env \<notin> set n \<and>
                           map_of f (d @ [path_sep env] @ n) \<noteq> None}"
    using m by simp
next
  fix n
  assume "n \<in> {n. n \<noteq> [] \<and> path_sep env \<notin> set n \<and> map_of f (d @ [path_sep env] @ n) \<noteq> None}"
  then have n: "n \<noteq> []" "path_sep env \<notin> set n" "map_of f (d @ [path_sep env] @ n) \<noteq> None"
    by auto
  from n(3) obtain nd where "(d @ [path_sep env] @ n, nd) \<in> set f"
    by (auto dest: map_of_SomeD)
  moreover have "is_child env d (d @ [path_sep env] @ n)"
    using n by (auto simp: is_child_join)
  ultimately have "drop (length d + 1) (d @ [path_sep env] @ n) \<in> set (children env f d)"
    unfolding children_def by force
  then show "n \<in> set (children env f d)" by simp
qed

lemma prefix_component:
  assumes "c \<notin> set a" "c \<notin> set b" "prefix (a @ [c]) (b @ c # r)"
  shows "a = b"
  using assms
proof (induction a arbitrary: b)
  case Nil
  then show ?case by (cases b) auto
next
  case (Cons x a)
  then show ?case by (cases b) auto
qed

lemma prefix_longer: "prefix (a @ x # t) a \<longleftrightarrow> False"
  by (auto dest: prefix_length_le)

subsection \<open>The reaper\<close>

lemma cleanup_loop_Cons:
  "cleanup_loop env s cur (e # es) =
     bind (if stale cur e
           then bind (emit (ConsoleLog (''Removing old version: '' @ e))) (\<lambda>_.
                fs_remove env (path_join env s e))
           else ret ()) (\<lambda>_.
     cleanup_loop env s cur es)"
  by (simp add: stale_def)

lemma reaped_Cons:
  "reaped env s cur (e # es) =
     (if stale cur e
      then (if hostFailure env Remove (path_join env s e) = None
            then e # reaped env s cur es else [])
      else reaped env s cur es)"
  by (simp add: reaped_def removal_fails_def)

lemma cleanup_loop_fs:
  "fs (snd (cleanup_loop env s cur es w)) =
     fold (\<lambda>e. delete_tree env (path_join env s e)) (reaped env s cur es) (fs w)"
proof (induction es arbitrary: w)
  case Nil
  show ?case by (simp add: reaped_def ret_def)
next
  case (Cons e es)
  show ?case
  proof (cases "stale cur e")
    case False
    then show ?thesis
      using Cons [of w]
      by (simp add: cleanup_loop_Cons reaped_Cons bind_def ret_def del: cleanup_loop.simps)
  next
    case True
    show ?thesis
    proof (cases "hostFailure env Remove (path_join env s e)")
      case (Some err)
      then show ?thesis
        using True
        by (simp add: cleanup_loop_Cons reaped_Cons bind_def emit_def fs_remove_def
            del: cleanup_loop.simps)
    next
      case None
      then show ?thesis
        using True
          Cons [of "w\<lparr>events := events w @ [ConsoleLog (''Removing old version: '' @ e)],
                     fs := delete_tree env (path_join env s e) (fs w)\<rparr>"]
        by (simp add: cleanup_loop_Cons reaped_Cons bind_def emit_def fs_remove_def
            del: cleanup_loop.simps)
    qed
  qed
qed

lemma cleanup_never_rejects: "fst (cleanupOldVersions env s cur w) = Inr ()"
  by (simp add: cleanupOldVersions_def try_catch_def emit_def split: prod.splits sum.splits)

lemma bind_cleanup:
  "bind (cleanupOldVersions env s cur) f w = f () (snd (cleanupOldVersions env s cur w))"
  using cleanup_never_rejects [of env s cur w]
  by (cases "cleanupOldVersions env s cur w") (auto simp: bind_def)

lemma cleanup_fs:
  "fs (snd (cleanupOldVersions env s cur w)) =
     (if hostFailure env Readdir s = None \<and> map_of (fs w) s = Some Dir
      then fold (\<lambda>e. delete_tree env (path_join env s e))
             (reaped env s cur (children env (fs w) s)) (fs w)
      else fs w)"
proof (cases "hostFailure env Readdir s = None \<and> map_of (fs w) s = Some Dir")
  case True
  obtain r w1 where r: "cleanup_loop env s cur (children env (fs w) s) w = (r, w1)"
    by (cases "cleanup_loop env s cur (children env (fs w) s) w")
  have "fs w1 = fold (\<lambda>e. delete_tree env (path_join env s e))
             (reaped env s cur (children env (fs w) s)) (fs w)"
    using cleanup_loop_fs [of env s cur "children env (fs w) s" w] r by simp
  then show ?thesis
    using True r
    by (cases r) (simp_all add: cleanupOldVersions_def try_catch_def bind_def fs_readdir_def emit_def)
next
  case False
  then show ?thesis
    by (auto simp: cleanupOldVersions_def try_catch_def bind_def fs_readdir_def emit_def
        split: option.splits node.splits)
qed

lemma map_of_reaped:
  "map_of (fold (\<lambda>e. delete_tree env (path_join env s e)) es f) q =
     (if \<exists>e \<in> set es. q = path_join env s e \<or> prefix (path_join env s e @ [path_sep env]) q
      then None else map_of f q)"
proof (induction es arbitrary: f)
  case Nil
  show ?case by simp
next
  case (Cons e es)
  show ?case
    unfolding fold_simps Cons
    by (auto simp: map_of_delete_tree)
qed

lemma set_reaped_subset:
  "set (reaped env s cur es) \<subseteq> {e \<in> set es. stale cur e}"
  by (auto simp: reaped_def dest: set_takeWhileD)

lemma reaped_all:
  assumes "\<forall>e \<in> set es. hostFailure env Remove (path_join env s e) = None"
  shows "reaped env s cur es = filter (stale cur) es"
  using assms by (induction es) (simp_all add: reaped_Cons, simp add: reaped_def)

text \<open>The reaper leaves alone what lies in the directory of the current version.\<close>

lemma cleanup_keeps_current:
  assumes "path_sep env \<notin> set cur"
  shows "map_of (fs (snd (cleanupOldVersions env s cur w)))
           (path_join env (path_join env s cur) r) =
         map_of (fs w) (path_join env (path_join env s cur) r)"
proof -
  have "\<not> (\<exists>e \<in> set (reaped env s cur (children env (fs w) s)).
            path_join env (path_join env s cur) r = path_join env s e \<or>
            prefix (path_join env s e @ [path_sep env]) (path_join env (path_join env s cur) r))"
  proof
    assume "\<exists>e \<in> set (reaped env s cur (children env (fs w) s)).
            path_join env (path_join env s cur) r = path_join env s e \<or>
            prefix (path_join env s e @ [path_sep env]) (path_join env (path_join env s cur) r)"
    then obtain e where e: "e \<in> set (children env (fs w) s)" "stale cur e"
      and d: "path_join env (path_join env s cur) r = path_join env s e \<or>
            prefix (path_join env s e @ [path_sep env]) (path_join env (path_join env s cur) r)"
      using set_reaped_subset [of env s cur "children env (fs w) s"] by blast
    from e(1) have nosep: "path_sep env \<notin> set e"
      by (simp add: set_children)
    from d show False
    proof
      assume "path_join env (path_join env s cur) r = path_join env s e"
      then have "e = cur @ path_sep env # r" by (simp add: path_join_def)
      with nosep show False by simp
    next
      assume "prefix (path_join env s e @ [path_sep env]) (path_join env (path_join env s cur) r)"
      then have "prefix (e @ [path_sep env]) (cur @ path_sep env # r)"
        by (simp add: path_join_def)
      then have "e = cur"
        using nosep assms by (rule prefix_component[rotated 2])
      with e(2) show False by (simp add: stale_def)
    qed
  qed
  then show ?thesis
    by (simp add: cleanup_fs map_of_reaped)
qed

lemma cleanup_keeps_outside:
  assumes "\<not> prefix (s @ [path_sep env]) q"
  shows "map_of (fs (snd (cleanupOldVersions env s cur w))) q = map_of (fs w) q"
proof -
  have "\<not> (\<exists>e \<in> set (reaped env s cur (children env (fs w) s)).
            q = path_join env s e \<or> prefix (path_join env s e @ [path_sep env]) q)"
    using assms by (auto simp: path_join_def prefix_def)
  then show ?thesis
    by (simp add: cleanup_fs map_of_reaped)
qed

text \<open>When the listing and every removal succeed, the entries that remain are those that are
  not stale.\<close>

lemma cleanup_children:
  assumes "hostFailure env Readdir s = None" "map_of (fs w) s = Some Dir"
    "\<forall>p. hostFailure env Remove p = None"
  shows "set (children env (fs (snd (cleanupOldVersions env s cur w))) s) =
           {n \<in> set (children env (fs w) s). \<not> stale cur n}"
proof -
  let ?es = "children env (fs w) s"
  let ?f' = "fold (\<lambda>e. delete_tree env (path_join env s e)) (filter (stale cur) ?es) (fs w)"
  have fs': "fs (snd (cleanupOldVersions env s cur w)) = ?f'"
    using assms by (simp add: cleanup_fs reaped_all)
  have "n \<in> set (children env ?f' s) \<longleftrightarrow> n \<in> set ?es \<and> \<not> stale cur n" for n
  proof (cases "n \<noteq> [] \<and> path_sep env \<notin> set n")
    case False
    then show ?thesis by (auto simp: set_children)
  next
    case True
    have noprefix: "\<not> prefix (e @ [path_sep env]) n" for e
      using True by (auto simp: prefix_def)
    have gone: "(\<exists>e \<in> set (filter (stale cur) ?es).
                 path_join env s n = path_join env s e \<or>
                 prefix (path_join env s e @ [path_sep env]) (path_join env s n)) \<longleftrightarrow>
              (n \<in> set ?es \<and> stale cur n)"
      using noprefix by (auto simp: path_join_def)
    have "n \<in> set (children env ?f' s) \<longleftrightarrow> map_of ?f' (path_join env s n) \<noteq> None"
      using True by (simp add: set_children path_join_def)
    also have "\<dots> \<longleftrightarrow> \<not> (n \<in> set ?es \<and> stale cur n) \<and> map_of (fs w) (path_join env s n) \<noteq> None"
      unfolding map_of_reaped gone by simp
    also have "map_of (fs w) (path_join env s n) \<noteq> None \<longleftrightarrow> n \<in> set ?es"
      using True by (simp add: set_children path_join_def)
    finally show ?thesis by blast
  qed
  then show ?thesis
    unfolding fs' by blast
qed

subsection \<open>The two paths of the installer\<close>

lemma ensureDir_result:
  assumes "fs_ensureDir env s w = (Inr (), w1)"
  shows "map_of (fs w1) s = Some Dir" "events w1 = events w" "releaseQueries w1 = releaseQueries w"
    "globalState w1 = globalState w"
    "q \<noteq> s \<Longrightarrow> map_of (fs w1) q = map_of (fs w) q"
    "pending w1 = pending w"
  using assms
  by (auto simp: fs_ensureDir_def map_add_def split: option.splits node.splits)

lemma ensureDir_present:
  assumes "hostFailure env EnsureDir s = None" "map_of (fs w) s = Some Dir"
  shows "fs_ensureDir env s w = (Inr (), w)"
  using assms by (simp add: fs_ensureDir_def)

lemma download_rejected:
  assumes "fs_ensureDir env (storagePath env) w = (Inl e, w1)"
  shows "downloadLanguageServer env u w = (Inl e, w)"
  using assms
  by (auto simp: downloadLanguageServer_def bind_def fs_ensureDir_def split: option.splits node.splits)

lemma download_lookup_fails:
  assumes "fs_ensureDir env (storagePath env) w = (Inr (), w1)"
    "latestRelease env (releaseQueries w) = Inl e"
  shows "downloadLanguageServer env u w = showFailure u e (lookedUp w1)"
  using assms ensureDir_result(3) [OF assms(1)]
  by (simp add: downloadLanguageServer_def bind_def try_catch_def getLatestRelease_def
      lookedUp_def showFailure_def Let_def)

lemma download_existing:
  assumes "fs_ensureDir env (storagePath env) w = (Inr (), w1)"
    "latestRelease env (releaseQueries w) = Inr rel"
    "map_of (fs w1) (binaryPathFor env (tag_name rel)) \<noteq> None"
  shows "downloadLanguageServer env u w =
           try_catch
             (bind (if platform env \<noteq> ''win32''
                    then fs_chmod env (binaryPathFor env (tag_name rel)) 493 else ret ()) (\<lambda>_.
              bind (enqueue (ReapTask (storagePath env) (VERSION_PREFIX @ tag_name rel))) (\<lambda>_.
              ret (Some (binaryPathFor env (tag_name rel))))))
             (showFailure u)
             (log_event (ConsoleLog (''Binary for version '' @ tag_name rel @
                                     '' already exists at '' @ binaryPathFor env (tag_name rel)))
                (lookedUp w1))"
  using assms ensureDir_result(3) [OF assms(1)]
  by (auto simp add: downloadLanguageServer_def bind_def try_catch_def getLatestRelease_def
      lookedUp_def showFailure_def Let_def fs_pathExists_def binaryPathFor_def versionDirFor_def
      path_join_def emit_def log_event_def split: prod.splits sum.splits)

lemma download_fresh:
  assumes "fs_ensureDir env (storagePath env) w = (Inr (), w1)"
    "latestRelease env (releaseQueries w) = Inr rel"
    "map_of (fs w1) (binaryPathFor env (tag_name rel)) = None"
    "getAssetName env (tag_name rel) = Some an"
    "find (\<lambda>a. name a = an) (assets rel) = Some a"
  shows "downloadLanguageServer env u w =
           try_catch
             (bind (bind (emit (ShowProgress ((if u then ''Updating'' else ''Downloading'') @
                                              '' FlatBuffers Language Server''))) (\<lambda>_.
                    downloadAndExtract env a an (tag_name rel) (versionDirFor env (tag_name rel))
                      (binaryPathFor env (tag_name rel))))
                (finishInstall env u (tag_name rel) (versionDirFor env (tag_name rel))))
             (showFailure u)
             (lookedUp w1)"
  using assms ensureDir_result(3) [OF assms(1)]
  by (auto simp add: downloadLanguageServer_def bind_def try_catch_def getLatestRelease_def
      lookedUp_def showFailure_def Let_def fs_pathExists_def binaryPathFor_def versionDirFor_def
      path_join_def split: prod.splits sum.splits)

lemma download_unsupported:
  assumes "fs_ensureDir env (storagePath env) w = (Inr (), w1)"
    "latestRelease env (releaseQueries w) = Inr rel"
    "map_of (fs w1) (binaryPathFor env (tag_name rel)) = None"
    "getAssetName env (tag_name rel) = None"
  shows "downloadLanguageServer env u w =
           (Inr None, log_event (ShowErrorMessage (''Unsupported platform: '' @ platform env @
                                                   ''-'' @ arch env)) (lookedUp w1))"
  using assms ensureDir_result(3) [OF assms(1)]
  by (auto simp add: downloadLanguageServer_def bind_def try_catch_def getLatestRelease_def
      lookedUp_def Let_def fs_pathExists_def binaryPathFor_def versionDirFor_def
      path_join_def emit_def ret_def log_event_def split: prod.splits sum.splits)

lemma download_no_asset:
  assumes "fs_ensureDir env (storagePath env) w = (Inr (), w1)"
    "latestRelease env (releaseQueries w) = Inr rel"
    "map_of (fs w1) (binaryPathFor env (tag_name rel)) = None"
    "getAssetName env (tag_name rel) = Some an"
    "find (\<lambda>a. name a = an) (assets rel) = None"
  shows "downloadLanguageServer env u w =
           showFailure u (Error (''Could not find a release asset for your platform: '' @ an))
             (lookedUp w1)"
  using assms ensureDir_result(3) [OF assms(1)]
  by (auto simp add: downloadLanguageServer_def bind_def try_catch_def getLatestRelease_def
      lookedUp_def showFailure_def Let_def fs_pathExists_def binaryPathFor_def versionDirFor_def
      path_join_def throw_def split: prod.splits sum.splits)

lemma assetName_extends_versionDir:
  assumes "getAssetName env v = Some an"
  shows "\<exists>t. an = (VERSION_PREFIX @ v) @ CHR ''-'' # t"
  using assms
  by (auto simp: getAssetName_def BINARY_NAME_def VERSION_PREFIX_def Let_def split: if_splits)

lemma downloadAndExtract_success:
  assumes run: "downloadAndExtract env a an v (path_join env (storagePath env) cur) bp w = (Inr x, w1)"
    and an: "an = cur @ CHR ''-'' # t"
  shows "x = bp"
    and "map_of (fs w1) (path_join env (storagePath env) cur) = Some Dir"
    and "map_of (fs w1) (storagePath env) = map_of (fs w) (storagePath env)"
    and "globalState w1 = globalState w"
proof -
  let ?s = "storagePath env"
  let ?vd = "path_join env ?s cur"
  let ?tmp = "path_join env ?s an"
  let ?un = "if endsWith an ''.zip'' then unzip env else untar env"
  have ext: "(if endsWith an ''.zip'' then extract_archive env (unzip env) ?tmp ?vd
              else extract_archive env (untar env) ?tmp ?vd) = extract_archive env ?un ?tmp ?vd"
    by simp
  from run obtain st wa wb wc wd where
    pipe: "pipeline env st ?tmp wa = (Inr (), wb)"
    and wa: "fs wa = fs w" "globalState wa = globalState w"
    and ens: "fs_ensureDir env ?vd (log_event (ProgressReport (''Extracting'' @ ellipsis)) wb) = (Inr (), wc)"
    and extr: "extract_archive env ?un ?tmp ?vd wc = (Inr (), wd)"
    and rem: "fs_remove env ?tmp wd = (Inr (), w1)"
    and x: "x = bp"
    unfolding downloadAndExtract_def Let_def ext
    by (auto simp: bind_def ret_def throw_def emit_def axios_stream_def log_event_def
        split: prod.splits sum.splits)
  show "x = bp" by (rule x)
  have tmp_vd: "?vd \<noteq> ?tmp" "\<not> prefix (?tmp @ [path_sep env]) ?vd"
    using an by (auto simp: path_join_def prefix_longer dest: prefix_length_le)
  have tmp_s: "?s \<noteq> ?tmp" "\<not> prefix (?tmp @ [path_sep env]) ?s"
    by (auto simp: path_join_def dest: prefix_length_le)
  have vd_s: "?s \<noteq> ?vd" "\<not> prefix (?vd @ [path_sep env]) ?s"
    by (auto simp: path_join_def dest: prefix_length_le)
  have vd_vd: "\<not> prefix (?vd @ [path_sep env]) ?vd"
    by (auto dest: prefix_length_le)
  have fs_wb: "map_of (fs wb) q = map_of (fs w) q" if "q \<noteq> ?tmp" for q
    using pipe wa that
    by (auto simp: pipeline_def Let_def update_conv' split: option.splits if_splits)
  have gs_wb: "globalState wb = globalState w"
    using pipe wa by (auto simp: pipeline_def Let_def split: option.splits if_splits)
  have fs_wc: "map_of (fs wc) ?vd = Some Dir" "\<And>q. q \<noteq> ?vd \<Longrightarrow> map_of (fs wc) q = map_of (fs wb) q"
    "globalState wc = globalState wb"
    using ensureDir_result [OF ens] by (simp_all add: log_event_def)
  have fs_wd: "map_of (fs wd) q = map_of (fs wc) q" if "\<not> prefix (?vd @ [path_sep env]) q" for q
    using extr that
    by (auto simp: extract_archive_def Let_def map_of_extracted split: option.splits node.splits)
  have gs_wd: "globalState wd = globalState wc"
    using extr by (auto simp: extract_archive_def Let_def split: option.splits node.splits)
  have fs_w1: "map_of (fs w1) q = map_of (fs wd) q"
    if "q \<noteq> ?tmp" "\<not> prefix (?tmp @ [path_sep env]) q" for q
    using rem that by (auto simp: fs_remove_def map_of_delete_tree split: option.splits)
  have gs_w1: "globalState w1 = globalState wd"
    using rem by (auto simp: fs_remove_def split: option.splits)
  show "map_of (fs w1) ?vd = Some Dir"
    using fs_w1 [of ?vd] fs_wd [of ?vd] fs_wc(1) tmp_vd vd_vd by simp
  show "map_of (fs w1) ?s = map_of (fs w) ?s"
    using fs_w1 [of ?s] fs_wd [of ?s] fs_wc(2) [of ?s] fs_wb [of ?s] tmp_s vd_s by simp
  show "globalState w1 = globalState w"
    using gs_w1 gs_wd fs_wc(3) gs_wb by simp
qed

lemma finishInstall_success:
  assumes "finishInstall env u v vd x w = (Inr r, w')"
  shows "\<exists>w5. w' = snd (cleanupOldVersions env (storagePath env) (VERSION_PREFIX @ v) w5) \<and>
              r = Some x \<and> (\<forall>q. q \<noteq> x \<longrightarrow> map_of (fs w5) q = map_of (fs w) q) \<and>
              globalState w5 LATEST_VERSION_KEY = Some v"
proof -
  let ?chmod = "if platform env \<noteq> ''win32'' then fs_chmod env x 493 else ret ()"
  let ?msg = "if u then
             bind (showInformationMessage env
                     (''Updated FlatBuffers Language Server. Reload to use the latest version (v'' @
                      v @ '').'')
                     [''Reload Now'']) (\<lambda>result.
             if result = Some ''Reload Now''
             then emit (ExecuteCommand ''workbench.action.reloadWindow'')
             else ret ())
           else
             emit (ShowInformationMessage
                     (''Successfully downloaded FlatBuffers Language Server v'' @
                      v @ '' to the [extension'' @ [CHR 0x27] @
                      ''s directory](command:revealFileInOS?'' @
                      revealArgument env vd @ '').'') [])"
  from assms obtain wa wb wc where
    a: "?chmod w = (Inr (), wa)"
    and b: "globalStateUpdate env LATEST_VERSION_KEY v wa = (Inr (), wb)"
    and c: "?msg wb = (Inr (), wc)"
    and d: "w' = snd (cleanupOldVersions env (storagePath env) (VERSION_PREFIX @ v) wc)"
    and r: "r = Some x"
    unfolding finishInstall_def
    by (auto simp: bind_cleanup bind_def ret_def split: prod.splits sum.splits)
  have fa: "map_of (fs wa) q = map_of (fs w) q" if "q \<noteq> x" for q
    using a that
    by (auto simp: fs_chmod_def ret_def update_conv' split: if_splits option.splits node.splits)
  have fb: "fs wb = fs wa" "globalState wb LATEST_VERSION_KEY = Some v"
    using b by (auto simp: globalStateUpdate_def split: option.splits)
  have fc: "fs wc = fs wb" "globalState wc = globalState wb"
    using c
    by (auto simp: showInformationMessage_def bind_def ret_def emit_def split: if_splits)
  show ?thesis
    using d r fa fb fc by (intro exI [of _ wc]) simp
qed

lemma version_dir_component:
  assumes "single_component v"
  shows "path_sep env \<notin> set (VERSION_PREFIX @ v)"
  using assms by (auto simp: single_component_def path_sep_def VERSION_PREFIX_def)

lemma binaryPathFor_join:
  "binaryPathFor env v =
     path_join env (path_join env (storagePath env) (VERSION_PREFIX @ v))
       (BINARY_NAME @ (if platform env = ''win32'' then ''.exe'' else []))"
  by (simp add: binaryPathFor_def versionDirFor_def path_join_def)

lemma versionDirFor_join:
  "versionDirFor env v = path_join env (storagePath env) (VERSION_PREFIX @ v)"
  by (simp add: versionDirFor_def path_join_def)

lemma binaryPath_not_storage: "binaryPathFor env v \<noteq> storagePath env"
  by (simp add: binaryPathFor_def versionDirFor_def)

lemma binaryPath_not_versionDir: "binaryPathFor env v \<noteq> versionDirFor env v"
  by (simp add: binaryPathFor_def)

lemma versionDir_not_storage: "versionDirFor env v \<noteq> storagePath env"
  by (simp add: versionDirFor_def)

lemma showFailure_result: "fst (showFailure u e w) = Inr None"
  by (simp add: showFailure_def bind_def emit_def ret_def)

lemma emits_showFailure:
  assumes "\<And>t. P (ShowErrorMessage (''Failed to '' @ (if u then ''update'' else ''download'') @
                                   '' language server: '' @ t))"
  shows "emits P (showFailure u e)"
  unfolding showFailure_def by (intro emits_intros assms)

text \<open>The installer when the binary of the latest version is there and can be made
  executable.\<close>

lemma download_existing_ok:
  assumes ens: "fs_ensureDir env (storagePath env) w = (Inr (), w1)"
    and rel: "latestRelease env (releaseQueries w) = Inr rel"
    and ex: "map_of (fs w1) (binaryPathFor env (tag_name rel)) = Some nd"
    and chmod: "platform env \<noteq> ''win32'' \<longrightarrow>
                hostFailure env Chmod (binaryPathFor env (tag_name rel)) = None"
  shows "\<exists>w3. downloadLanguageServer env u w =
                 (Inr (Some (binaryPathFor env (tag_name rel))),
                  started (ReapTask (storagePath env) (VERSION_PREFIX @ tag_name rel)) w3) \<and>
               events w3 = events w @ [HttpGet releaseUrl,
                  ConsoleLog (''Binary for version '' @ tag_name rel @ '' already exists at '' @
                              binaryPathFor env (tag_name rel))] \<and>
               map_of (fs w3) (binaryPathFor env (tag_name rel)) =
                 Some (case nd of
                         Dir \<Rightarrow> Dir
                       | File c m \<Rightarrow> File c (if platform env = ''win32'' then m else 493)) \<and>
               pending w3 = pending w"
proof -
  let ?bp = "binaryPathFor env (tag_name rel)"
  let ?w2 = "log_event (ConsoleLog (''Binary for version '' @ tag_name rel @
                                     '' already exists at '' @ ?bp)) (lookedUp w1)"
  let ?chmod = "if platform env \<noteq> ''win32'' then fs_chmod env ?bp 493 else ret ()"
  have ev: "events ?w2 = events w @ [HttpGet releaseUrl,
              ConsoleLog (''Binary for version '' @ tag_name rel @ '' already exists at '' @ ?bp)]"
    using ensureDir_result(2) [OF ens] by (simp add: log_event_def lookedUp_def)
  have fs2: "fs ?w2 = fs w1" by (simp add: log_event_def lookedUp_def)
  have pe2: "pending ?w2 = pending w"
    using ensureDir_result(6) [OF ens] by (simp add: log_event_def lookedUp_def)
  obtain w3 where w3: "?chmod ?w2 = (Inr (), w3)" "events w3 = events ?w2"
    "map_of (fs w3) ?bp =
       Some (case nd of Dir \<Rightarrow> Dir
             | File c m \<Rightarrow> File c (if platform env = ''win32'' then m else 493))"
    "pending w3 = pending ?w2"
    using ex chmod fs2
    by (cases nd; cases "platform env = ''win32''")
       (auto simp: fs_chmod_def ret_def update_conv')
  have "downloadLanguageServer env u w =
          (Inr (Some ?bp),
           started (ReapTask (storagePath env) (VERSION_PREFIX @ tag_name rel)) w3)"
    using download_existing [OF ens rel, of u] ex w3(1)
    by (simp add: try_catch_def bind_def enqueue_def ret_def started_def)
  then show ?thesis
    using w3 ev pe2 by auto
qed

lemma emitted_after_cleanup:
  assumes "events w3 = events w @ es" "\<And>s. P (ConsoleLog s)" "\<And>s. P (ConsoleError s)"
  shows "\<exists>es'. emitted w (snd (cleanupOldVersions env s cur w3)) = es @ es' \<and> list_all P es'"
proof -
  from emits_cleanupOldVersions [of P env s cur] assms(2,3)
  obtain es' where "events (snd (cleanupOldVersions env s cur w3)) = events w3 @ es'"
    "list_all P es'"
    unfolding emits_def by blast
  then show ?thesis
    using assms(1) by (auto simp: emitted_def)
qed

section \<open>Claims about the installer, the background check and the reaper\<close>

subsection \<open>C2: errors of the background update check\<close>

lemma check_never_rejects: "fst (checkForUpdatesInBackground env c a w) = Inr ()"
  by (simp add: checkForUpdatesInBackground_def checkForUpdates_started_def
      checkForUpdates_resumed_def bind_def try_catch_def emit_def
      split: prod.splits sum.splits)

lemma check_lookup_fails:
  assumes "latestRelease env (releaseQueries w) = Inl e"
  shows "checkForUpdatesInBackground env c a w =
           (Inr (), log_event (ConsoleError (''Failed to check for updates in the background: '' @
                                             message e)) (checked c w))"
  using assms
  by (simp add: checkForUpdatesInBackground_def checkForUpdates_started_def
      checkForUpdates_resumed_def checked_def log_event_def io_defs
      getLatestRelease_def Let_def)

lemma emits_check: "emits (update_failure_notice env) (checkForUpdatesInBackground env c a)"
  unfolding checkForUpdatesInBackground_def checkForUpdates_started_def
      checkForUpdates_resumed_def Let_def
  by (intro emits_intros emits_downloadLanguageServer) (auto elim: is_error_message.elims)

lemma emits_run_task: "emits (update_failure_notice env) (run_task env t)"
proof (cases t)
  case (UpdateCheckTask c a)
  show ?thesis
    unfolding UpdateCheckTask run_task.simps checkForUpdates_resumed_def Let_def
    by (intro emits_intros emits_downloadLanguageServer) (auto elim: is_error_message.elims)
next
  case (ReapTask s cur)
  show ?thesis
    unfolding ReapTask run_task.simps
    by (rule emits_cleanupOldVersions) simp_all
qed

lemma check_storage_fails:
  assumes "latestRelease env (releaseQueries w) = Inr rel" "tag_name rel \<noteq> c"
    "hostFailure env EnsureDir (storagePath env) = Some e"
  shows "checkForUpdatesInBackground env c True w =
           (Inr (), log_event (ConsoleError (''Failed to check for updates in the background: '' @
                                             message e))
                      (log_event (ConsoleLog (''New version found: '' @ tag_name rel))
                         (checked c w)))"
proof -
  let ?w2 = "log_event (ConsoleLog (''New version found: '' @ tag_name rel)) (checked c w)"
  have "fs_ensureDir env (storagePath env) ?w2 = (Inl e, ?w2)"
    using assms(3) by (simp add: fs_ensureDir_def)
  then have "downloadLanguageServer env True ?w2 = (Inl e, ?w2)"
    by (rule download_rejected)
  then show ?thesis
    by (simp add: check_auto [OF assms(1,2)] try_catch_def bind_def emit_def log_event_def)
qed

lemma check_skip_write_fails:
  assumes "latestRelease env (releaseQueries w) = Inr rel" "tag_name rel \<noteq> c"
    "globalState w LATEST_SKIPPED_VERSION_KEY \<noteq> Some (tag_name rel)" "tag_name rel \<noteq> []"
    "promptAnswer env updateQuestion = Some ''Skip This Version''"
    "hostFailure env GlobalStateUpdate LATEST_SKIPPED_VERSION_KEY = Some e"
  shows "checkForUpdatesInBackground env c False w =
           (Inr (), log_event (ConsoleError (''Failed to check for updates in the background: '' @
                                             message e))
                      (log_event updatePrompt
                         (log_event (ConsoleLog (''New version found: '' @ tag_name rel))
                            (checked c w))))"
  using assms(5,6)
  by (simp add: check_prompts [OF assms(1-4)])
     (simp add: io_defs showInformationMessage_def globalStateUpdate_def log_event_def
        updatePrompt_def)

lemma check_enable_fails:
  assumes "latestRelease env (releaseQueries w) = Inr rel" "tag_name rel \<noteq> c"
    "globalState w LATEST_SKIPPED_VERSION_KEY \<noteq> Some (tag_name rel)" "tag_name rel \<noteq> []"
    "promptAnswer env updateQuestion = Some ''Download & Auto-Update''"
    "hostFailure env ConfigUpdate AUTO_DOWNLOAD_CONFIG = Some e"
  shows "checkForUpdatesInBackground env c False w =
           (Inr (), log_event (ConsoleError (''Failed to check for updates in the background: '' @
                                             message e))
                      (log_event updatePrompt
                         (log_event (ConsoleLog (''New version found: '' @ tag_name rel))
                            (checked c w))))"
  using assms(5,6)
  by (simp add: check_prompts [OF assms(1-4)])
     (simp add: io_defs showInformationMessage_def enableAutoUpdates_def log_event_def
        updatePrompt_def)

lemma download_storage_fails:
  assumes "hostFailure env EnsureDir (storagePath env) = Some e"
  shows "downloadLanguageServer env u w = (Inl e, w)"
proof -
  have "fs_ensureDir env (storagePath env) w = (Inl e, w)"
    using assms by (simp add: fs_ensureDir_def)
  then show ?thesis by (rule download_rejected)
qed

lemma check_prompted_storage_fails:
  assumes "latestRelease env (releaseQueries w) = Inr rel" "tag_name rel \<noteq> c"
    "globalState w LATEST_SKIPPED_VERSION_KEY \<noteq> Some (tag_name rel)" "tag_name rel \<noteq> []"
    "promptAnswer env updateQuestion = Some ''Download''"
    "hostFailure env EnsureDir (storagePath env) = Some e"
  shows "checkForUpdatesInBackground env c False w =
           (Inr (), log_event (ConsoleError (''Failed to check for updates in the background: '' @
                                             message e))
                      (log_event updatePrompt
                         (log_event (ConsoleLog (''New version found: '' @ tag_name rel))
                            (checked c w))))"
  using assms(5)
  by (simp add: check_prompts [OF assms(1-4)])
     (simp add: try_catch_def bind_def ret_def emit_def showInformationMessage_def log_event_def
        updatePrompt_def download_storage_fails [OF assms(6)])

text \<open>C2, as the code has it. The background update check never rejects. An error of its own
  steps is written to the console and nothing is shown: so for a failed release query, a
  storage directory that cannot be prepared, a skip state that cannot be written and an
  auto-update setting that cannot be enabled. The install step catches its other errors
  itself and shows them: the only error messages a background check can show are the
  installer's \<^verbatim>\<open>Failed to update language server: ...\<close> and \<^verbatim>\<open>Unsupported platform: ...\<close>,
  and so for whatever task is left waiting when the check ends.\<close>

theorem background_check_errors:
  "fst (checkForUpdatesInBackground env c a w) = Inr () \<and>
   (latestRelease env (releaseQueries w) = Inl e \<longrightarrow>
      checkForUpdatesInBackground env c a w =
        (Inr (), log_event (ConsoleError (''Failed to check for updates in the background: '' @
                                          message e)) (checked c w))) \<and>
   (latestRelease env (releaseQueries w) = Inr rel \<and> tag_name rel \<noteq> c \<and>
    hostFailure env EnsureDir (storagePath env) = Some e \<longrightarrow>
      checkForUpdatesInBackground env c True w =
        (Inr (), log_event (ConsoleError (''Failed to check for updates in the background: '' @
                                          message e))
                   (log_event (ConsoleLog (''New version found: '' @ tag_name rel))
                      (checked c w)))) \<and>
   (latestRelease env (releaseQueries w) = Inr rel \<and> tag_name rel \<noteq> c \<and>
    globalState w LATEST_SKIPPED_VERSION_KEY \<noteq> Some (tag_name rel) \<and> tag_name rel \<noteq> [] \<and>
    (promptAnswer env updateQuestion = Some ''Skip This Version'' \<and>
     hostFailure env GlobalStateUpdate LATEST_SKIPPED_VERSION_KEY = Some e \<or>
     promptAnswer env updateQuestion = Some ''Download & Auto-Update'' \<and>
     hostFailure env ConfigUpdate AUTO_DOWNLOAD_CONFIG = Some e \<or>
     promptAnswer env updateQuestion = Some ''Download'' \<and>
     hostFailure env EnsureDir (storagePath env) = Some e) \<longrightarrow>
      checkForUpdatesInBackground env c False w =
        (Inr (), log_event (ConsoleError (''Failed to check for updates in the background: '' @
                                          message e))
                   (log_event updatePrompt
                      (log_event (ConsoleLog (''New version found: '' @ tag_name rel))
                         (checked c w))))) \<and>
   emits (update_failure_notice env) (checkForUpdatesInBackground env c a) \<and>
   emits (update_failure_notice env) (run_task env t)"
  using check_never_rejects [of env c a w] check_lookup_fails [of env w e c a]
    check_storage_fails [of env w rel c e] check_skip_write_fails [of env w rel c e]
    check_enable_fails [of env w rel c e] check_prompted_storage_fails [of env w rel c e]
    emits_check [of env c a] emits_run_task [of env t]
  by blast

theorem background_check_errors_witness:
  "checkForUpdatesInBackground (linux_env\<lparr>latestRelease := (\<lambda>n. Inl (Error ''timeout''))\<rparr>)
     ''v1.2.0'' True installed_world =
   (Inr (), log_event (ConsoleError ''Failed to check for updates in the background: timeout'')
              (checked ''v1.2.0'' installed_world)) \<and>
   checkForUpdatesInBackground
     (linux_env\<lparr>hostFailure := (\<lambda>op p. if op = EnsureDir then Some (Error ''EACCES'') else None)\<rparr>)
     ''v1.1.0'' True empty_world =
   (Inr (), log_event (ConsoleError ''Failed to check for updates in the background: EACCES'')
              (log_event (ConsoleLog ''New version found: v1.2.0'')
                 (checked ''v1.1.0'' empty_world))) \<and>
   checkForUpdatesInBackground
     (linux_env\<lparr>promptAnswer := (\<lambda>m. Some ''Skip This Version''),
                hostFailure := (\<lambda>op p. if op = GlobalStateUpdate then Some (Error ''EIO'') else None)\<rparr>)
     ''v1.1.0'' False empty_world =
   (Inr (), log_event (ConsoleError ''Failed to check for updates in the background: EIO'')
              (log_event updatePrompt
                 (log_event (ConsoleLog ''New version found: v1.2.0'')
                    (checked ''v1.1.0'' empty_world))))"
proof (intro conjI)
  show "checkForUpdatesInBackground (linux_env\<lparr>latestRelease := (\<lambda>n. Inl (Error ''timeout''))\<rparr>)
     ''v1.2.0'' True installed_world =
   (Inr (), log_event (ConsoleError ''Failed to check for updates in the background: timeout'')
              (checked ''v1.2.0'' installed_world))"
    using background_check_errors
      [where env = "linux_env\<lparr>latestRelease := (\<lambda>n. Inl (Error ''timeout''))\<rparr>"
         and c = "''v1.2.0''" and a = True and w = installed_world and e = "Error ''timeout''"]
    by (simp add: linux_env_def)
  show "checkForUpdatesInBackground
     (linux_env\<lparr>hostFailure := (\<lambda>op p. if op = EnsureDir then Some (Error ''EACCES'') else None)\<rparr>)
     ''v1.1.0'' True empty_world =
   (Inr (), log_event (ConsoleError ''Failed to check for updates in the background: EACCES'')
              (log_event (ConsoleLog ''New version found: v1.2.0'')
                 (checked ''v1.1.0'' empty_world)))"
    using background_check_errors
      [where env = "linux_env\<lparr>hostFailure :=
                      (\<lambda>op p. if op = EnsureDir then Some (Error ''EACCES'') else None)\<rparr>"
         and c = "''v1.1.0''" and w = empty_world and e = "Error ''EACCES''"
         and rel = release_1_2_0]
    by (simp add: linux_env_def release_1_2_0_def)
  show "checkForUpdatesInBackground
     (linux_env\<lparr>promptAnswer := (\<lambda>m. Some ''Skip This Version''),
                hostFailure := (\<lambda>op p. if op = GlobalStateUpdate then Some (Error ''EIO'') else None)\<rparr>)
     ''v1.1.0'' False empty_world =
   (Inr (), log_event (ConsoleError ''Failed to check for updates in the background: EIO'')
              (log_event updatePrompt
                 (log_event (ConsoleLog ''New version found: v1.2.0'')
                    (checked ''v1.1.0'' empty_world))))"
    using background_check_errors
      [where env = "linux_env\<lparr>promptAnswer := (\<lambda>m. Some ''Skip This Version''),
                      hostFailure := (\<lambda>op p. if op = GlobalStateUpdate
                                                then Some (Error ''EIO'') else None)\<rparr>"
         and c = "''v1.1.0''" and w = empty_world and e = "Error ''EIO''"
         and rel = release_1_2_0]
    by (simp add: linux_env_def release_1_2_0_def empty_world_def)
qed

text \<open>The claim as stated fails: on an ARM Linux machine with auto-download enabled, a release
  without an asset for the platform makes the background check show an error message.\<close>

theorem background_check_shows_install_error:
  "ShowErrorMessage
     ''Failed to update language server: Could not find a release asset for your platform: flatbuffers-language-server-v1.2.0-aarch64-unknown-linux-gnu.tar.gz''
   \<in> set (events (snd (checkForUpdatesInBackground (linux_env\<lparr>arch := ''arm64''\<rparr>) ''v1.1.0'' True
                        empty_world)))"
  by (simp add: program_defs example_defs io_defs host_defs path_defs const_defs error_text_def
      Let_def)

subsection \<open>C1: the temporary archive\<close>

text \<open>C1 fails on the code. The archive is removed by the statement after the extraction, so
  an extraction that rejects skips the removal, and so does a stream that is interrupted: in
  both cases \<^verbatim>\<open>downloadLanguageServer\<close> returns nothing and the temporary archive is still in
  the storage root.\<close>

theorem temp_archive_survives_failure:
  "fst (downloadLanguageServer corrupt_env False empty_world) = Inr None \<and>
   map_of (fs (snd (downloadLanguageServer corrupt_env False empty_world)))
     ''/s/flatbuffers-language-server-v1.2.0-x86_64-unknown-linux-gnu.tar.gz'' =
     Some (File ''archive'' 420) \<and>
   fst (downloadLanguageServer interrupted_env False empty_world) = Inr None \<and>
   map_of (fs (snd (downloadLanguageServer interrupted_env False empty_world)))
     ''/s/flatbuffers-language-server-v1.2.0-x86_64-unknown-linux-gnu.tar.gz'' =
     Some (File ''arch'' 420)"
  by (simp add: program_defs example_defs io_defs host_defs path_defs const_defs error_text_def
      Let_def)

subsection \<open>C3: the installer when the binary is already there\<close>

text \<open>C3, as the code has it. When the storage root exists and the binary of the latest
  version (a tag that is one path component) is in it, \<^verbatim>\<open>downloadLanguageServer\<close> makes exactly
  one network request, the query for the latest release, and no download; it returns the
  binary's path; the binary keeps its content and has mode \<^verbatim>\<open>0o755\<close> afterwards (its old mode
  on Windows, where no mode is set). The call starts the reaper without waiting for it: the
  reaper is the one task added to the queue, and when it has run there is still only the one
  network request and the binary is as it was at the return.\<close>

theorem installer_skips_download_when_installed:
  assumes "hostFailure env EnsureDir (storagePath env) = None"
    and "map_of (fs w) (storagePath env) = Some Dir"
    and "latestRelease env (releaseQueries w) = Inr rel"
    and "map_of (fs w) (binaryPathFor env (tag_name rel)) = Some (File c m)"
    and "platform env \<noteq> ''win32'' \<longrightarrow>
           hostFailure env Chmod (binaryPathFor env (tag_name rel)) = None"
    and "single_component (tag_name rel)"
  shows "fst (downloadLanguageServer env u w) = Inr (Some (binaryPathFor env (tag_name rel))) \<and>
         filter is_network (emitted w (snd (downloadLanguageServer env u w))) =
           [HttpGet releaseUrl] \<and>
         map_of (fs (snd (downloadLanguageServer env u w))) (binaryPathFor env (tag_name rel)) =
           Some (File c (if platform env = ''win32'' then m else 493)) \<and>
         pending (snd (downloadLanguageServer env u w)) =
           pending w @ [ReapTask (storagePath env) (VERSION_PREFIX @ tag_name rel)] \<and>
         filter is_network
           (emitted w (snd (run_task env (ReapTask (storagePath env) (VERSION_PREFIX @ tag_name rel))
                              (snd (downloadLanguageServer env u w))))) =
           [HttpGet releaseUrl] \<and>
         map_of (fs (snd (run_task env (ReapTask (storagePath env) (VERSION_PREFIX @ tag_name rel))
                            (snd (downloadLanguageServer env u w)))))
           (binaryPathFor env (tag_name rel)) =
           Some (File c (if platform env = ''win32'' then m else 493))"
proof -
  let ?bp = "binaryPathFor env (tag_name rel)"
  let ?cur = "VERSION_PREFIX @ tag_name rel"
  let ?t = "ReapTask (storagePath env) ?cur"
  have ens: "fs_ensureDir env (storagePath env) w = (Inr (), w)"
    using assms(1,2) by (rule ensureDir_present)
  from download_existing_ok [OF ens assms(3) assms(4) assms(5), of u]
  obtain w3 where w3:
    "downloadLanguageServer env u w = (Inr (Some ?bp), started ?t w3)"
    "events w3 = events w @ [HttpGet releaseUrl,
        ConsoleLog (''Binary for version '' @ tag_name rel @ '' already exists at '' @ ?bp)]"
    "map_of (fs w3) ?bp = Some (File c (if platform env = ''win32'' then m else 493))"
    "pending w3 = pending w"
    by auto
  let ?w' = "started ?t w3"
  have ev': "events ?w' = events w @ [HttpGet releaseUrl,
        ConsoleLog (''Binary for version '' @ tag_name rel @ '' already exists at '' @ ?bp)]"
    using w3(2) by (simp add: started_def)
  from emitted_after_cleanup [OF ev', of "\<lambda>e. \<not> is_network e" env "storagePath env" ?cur]
  obtain es' where es':
    "emitted w (snd (cleanupOldVersions env (storagePath env) ?cur ?w')) =
       [HttpGet releaseUrl,
        ConsoleLog (''Binary for version '' @ tag_name rel @ '' already exists at '' @ ?bp)] @ es'"
    "list_all (\<lambda>e. \<not> is_network e) es'"
    by auto
  have quiet: "filter is_network es' = []"
    using es'(2) by (simp add: list_all_iff)
  have kept: "map_of (fs (snd (cleanupOldVersions env (storagePath env) ?cur ?w'))) ?bp =
              map_of (fs ?w') ?bp"
    unfolding binaryPathFor_join
    by (rule cleanup_keeps_current) (rule version_dir_component [OF assms(6)])
  have at_return: "filter is_network (emitted w ?w') = [HttpGet releaseUrl]"
    using ev' by (simp add: emitted_def)
  show ?thesis
    using w3 es'(1) quiet kept at_return by (simp add: started_def)
qed

theorem installer_skips_download_when_installed_witness:
  "fst (downloadLanguageServer linux_env False upgraded_world) =
     Inr (Some ''/s/flatbuffers-language-server-v1.2.0/flatbuffers-language-server'') \<and>
   filter is_network (emitted upgraded_world (snd (downloadLanguageServer linux_env False upgraded_world))) =
     [HttpGet releaseUrl] \<and>
   map_of (fs (snd (downloadLanguageServer linux_env False upgraded_world)))
     ''/s/flatbuffers-language-server-v1.2.0/flatbuffers-language-server'' =
     Some (File ''binary'' 493) \<and>
   pending (snd (downloadLanguageServer linux_env False upgraded_world)) =
     [ReapTask ''/s'' ''flatbuffers-language-server-v1.2.0''] \<and>
   map_of (fs (snd (run_task linux_env (ReapTask ''/s'' ''flatbuffers-language-server-v1.2.0'')
                      (snd (downloadLanguageServer linux_env False upgraded_world)))))
     ''/s/flatbuffers-language-server-v1.2.0/flatbuffers-language-server'' =
     Some (File ''binary'' 493)"
  using installer_skips_download_when_installed
    [of linux_env upgraded_world release_1_2_0 "''binary''" 420 False]
  by (simp add: linux_env_def upgraded_world_def release_1_2_0_def binaryPathFor_def
      versionDirFor_def path_sep_def single_component_def const_defs)

text \<open>The claim as stated fails: with version \<^verbatim>\<open>v1.2.0\<close> installed and latest, the call
  queries the release index, and it starts the reaper, which removes the directory of the
  superseded \<^verbatim>\<open>v1.1.0\<close>.\<close>

theorem installer_queries_release_index_when_installed:
  "map_of (fs upgraded_world) (binaryPathFor linux_env ''v1.2.0'') = Some (File ''binary'' 420) \<and>
   latestRelease linux_env 0 = Inr release_1_2_0 \<and>
   filter is_network (events (snd (downloadLanguageServer linux_env False upgraded_world))) =
     [HttpGet ''https://api.github.com/repos/smpanaro/flatbuffers-language-server/releases/latest''] \<and>
   pending (snd (downloadLanguageServer linux_env False upgraded_world)) =
     [ReapTask ''/s'' ''flatbuffers-language-server-v1.2.0''] \<and>
   map_of (fs upgraded_world)
     ''/s/flatbuffers-language-server-v1.1.0/flatbuffers-language-server'' =
     Some (File ''old binary'' 493) \<and>
   map_of (fs (snd (run_task linux_env (ReapTask ''/s'' ''flatbuffers-language-server-v1.2.0'')
                      (snd (downloadLanguageServer linux_env False upgraded_world)))))
     ''/s/flatbuffers-language-server-v1.1.0/flatbuffers-language-server'' = None"
  by (simp add: program_defs example_defs io_defs host_defs path_defs const_defs error_text_def
      binaryPathFor_def versionDirFor_def Let_def)

subsection \<open>C9: the installed binary is looked for before the platform is checked\<close>

lemma existing_branch_never_unsupported:
  assumes ens: "fs_ensureDir env (storagePath env) w = (Inr (), w1)"
    and rel: "latestRelease env (releaseQueries w) = Inr rel"
    and ex: "map_of (fs w1) (binaryPathFor env (tag_name rel)) \<noteq> None"
  shows "ShowErrorMessage (''Unsupported platform: '' @ platform env @ ''-'' @ arch env)
           \<notin> set (emitted w (snd (downloadLanguageServer env u w)))"
proof -
  let ?bp = "binaryPathFor env (tag_name rel)"
  let ?P = "\<lambda>e. e \<noteq> ShowErrorMessage (''Unsupported platform: '' @ platform env @ ''-'' @ arch env)"
  let ?m = "try_catch
             (bind (if platform env \<noteq> ''win32'' then fs_chmod env ?bp 493 else ret ()) (\<lambda>_.
              bind (enqueue (ReapTask (storagePath env) (VERSION_PREFIX @ tag_name rel))) (\<lambda>_.
              ret (Some ?bp))))
             (showFailure u)"
  let ?w2 = "log_event (ConsoleLog (''Binary for version '' @ tag_name rel @
                                     '' already exists at '' @ ?bp)) (lookedUp w1)"
  have "emits ?P ?m"
    by (intro emits_intros emits_showFailure) simp_all
  then obtain es where es: "events (snd (?m ?w2)) = events ?w2 @ es" "list_all ?P es"
    unfolding emits_def by blast
  have "emitted w (snd (downloadLanguageServer env u w)) =
          [HttpGet releaseUrl,
           ConsoleLog (''Binary for version '' @ tag_name rel @ '' already exists at '' @ ?bp)] @ es"
    using es(1) ensureDir_result(2) [OF ens]
    by (simp add: download_existing [OF ens rel ex] emitted_def log_event_def lookedUp_def)
  then show ?thesis
    using es(2) by (auto simp: list_all_iff)
qed

text \<open>What the reaper adds to the trace of a call, when it runs afterwards, is console lines.\<close>

lemma emitted_with_reaper:
  assumes "\<And>s. P (ConsoleLog s)" "\<And>s. P (ConsoleError s)"
  shows "\<exists>es'. emitted w (snd (run_task env (ReapTask s cur) (snd (downloadLanguageServer env u w)))) =
                emitted w (snd (downloadLanguageServer env u w)) @ es' \<and> list_all P es'"
proof -
  let ?w' = "snd (downloadLanguageServer env u w)"
  from emits_anything_downloadLanguageServer [of env u]
  obtain es where es: "events ?w' = events w @ es"
    unfolding emits_def by blast
  from emitted_after_cleanup [OF es, of P env s cur] assms
  obtain es' where "emitted w (snd (cleanupOldVersions env s cur ?w')) = es @ es'" "list_all P es'"
    by blast
  then show ?thesis
    using es by (auto simp: emitted_def)
qed

text \<open>C9. \<^verbatim>\<open>downloadLanguageServer\<close> looks for the binary of the latest version before it asks
  whether the platform is supported: on an unsupported platform with that binary on disk it
  returns the binary's path and shows no error, neither up to its return nor when the reaper
  it started has run; and whenever the unsupported-platform error is shown, up to the return
  or up to the end of the reaper, the binary of the latest version was not on disk.\<close>

theorem installed_binary_wins_over_platform_check:
  assumes "latestRelease env (releaseQueries w) = Inr rel"
  shows "(getAssetName env (tag_name rel) = None \<and>
          hostFailure env EnsureDir (storagePath env) = None \<and>
          map_of (fs w) (storagePath env) = Some Dir \<and>
          map_of (fs w) (binaryPathFor env (tag_name rel)) \<noteq> None \<and>
          hostFailure env Chmod (binaryPathFor env (tag_name rel)) = None \<longrightarrow>
            fst (downloadLanguageServer env u w) = Inr (Some (binaryPathFor env (tag_name rel))) \<and>
            filter is_error_message (emitted w (snd (downloadLanguageServer env u w))) = [] \<and>
            filter is_error_message
              (emitted w (snd (run_task env (ReapTask (storagePath env) (VERSION_PREFIX @ tag_name rel))
                                 (snd (downloadLanguageServer env u w))))) = []) \<and>
         (ShowErrorMessage (''Unsupported platform: '' @ platform env @ ''-'' @ arch env)
            \<in> set (emitted w (snd (downloadLanguageServer env u w))) \<longrightarrow>
            map_of (fs w) (binaryPathFor env (tag_name rel)) = None) \<and>
         (ShowErrorMessage (''Unsupported platform: '' @ platform env @ ''-'' @ arch env)
            \<in> set (emitted w (snd (run_task env (ReapTask s cur)
                                      (snd (downloadLanguageServer env u w))))) \<longrightarrow>
            map_of (fs w) (binaryPathFor env (tag_name rel)) = None)"
proof -
  let ?bp = "binaryPathFor env (tag_name rel)"
  let ?cur = "VERSION_PREFIX @ tag_name rel"
  let ?t = "ReapTask (storagePath env) ?cur"
  let ?w' = "snd (downloadLanguageServer env u w)"
  let ?unsupported = "ShowErrorMessage (''Unsupported platform: '' @ platform env @ ''-'' @ arch env)"
  have installed: "fst (downloadLanguageServer env u w) = Inr (Some ?bp) \<and>
      filter is_error_message (emitted w ?w') = [] \<and>
      filter is_error_message (emitted w (snd (run_task env ?t ?w'))) = []"
    if h: "getAssetName env (tag_name rel) = None \<and>
          hostFailure env EnsureDir (storagePath env) = None \<and>
          map_of (fs w) (storagePath env) = Some Dir \<and>
          map_of (fs w) ?bp \<noteq> None \<and> hostFailure env Chmod ?bp = None"
  proof -
    from h obtain nd where nd: "map_of (fs w) ?bp = Some nd" by auto
    have ens: "fs_ensureDir env (storagePath env) w = (Inr (), w)"
      using h by (simp add: ensureDir_present)
    from download_existing_ok [OF ens assms nd, of u] h
    obtain w3 where w3:
      "downloadLanguageServer env u w = (Inr (Some ?bp), started ?t w3)"
      "events w3 = events w @ [HttpGet releaseUrl,
          ConsoleLog (''Binary for version '' @ tag_name rel @ '' already exists at '' @ ?bp)]"
      by auto
    have quiet: "filter is_error_message (emitted w ?w') = []"
      using w3 by (simp add: emitted_def started_def)
    from emitted_with_reaper [of "\<lambda>e. \<not> is_error_message e" w env "storagePath env" ?cur u]
    obtain es' where es':
      "emitted w (snd (run_task env ?t ?w')) = emitted w ?w' @ es'"
      "list_all (\<lambda>e. \<not> is_error_message e) es'"
      by auto
    have "filter is_error_message es' = []"
      using es'(2) by (simp add: list_all_iff)
    then show ?thesis
      using w3(1) quiet es'(1) by simp
  qed
  have absent: "map_of (fs w) ?bp = None" if shown: "?unsupported \<in> set (emitted w ?w')"
  proof -
    obtain r w1 where ens: "fs_ensureDir env (storagePath env) w = (r, w1)"
      by (cases "fs_ensureDir env (storagePath env) w")
    show ?thesis
    proof (cases r)
      case (Inl e)
      then have "downloadLanguageServer env u w = (Inl e, w)"
        using ens by (simp add: download_rejected)
      with shown show ?thesis by (simp add: emitted_def)
    next
      case (Inr x)
      then have ens': "fs_ensureDir env (storagePath env) w = (Inr (), w1)"
        using ens by simp
      have "map_of (fs w1) ?bp = None"
        using existing_branch_never_unsupported [OF ens' assms, of u] shown by blast
      then show ?thesis
        using ensureDir_result(5) [OF ens', of ?bp] by (simp add: binaryPath_not_storage)
    qed
  qed
  have absent_later: "map_of (fs w) ?bp = None"
    if shown: "?unsupported \<in> set (emitted w (snd (run_task env (ReapTask s cur) ?w')))"
  proof -
    from emitted_with_reaper [of "\<lambda>e. e \<noteq> ?unsupported" w env s cur u]
    obtain es' where es':
      "emitted w (snd (run_task env (ReapTask s cur) ?w')) = emitted w ?w' @ es'"
      "list_all (\<lambda>e. e \<noteq> ?unsupported) es'"
      by auto
    have "?unsupported \<notin> set es'"
      using es'(2) by (auto simp: list_all_iff)
    then have "?unsupported \<in> set (emitted w ?w')"
      using shown es'(1) by simp
    then show ?thesis by (rule absent)
  qed
  show ?thesis
    using installed absent absent_later by blast
qed

theorem installed_binary_wins_over_platform_check_witness:
  "getAssetName (linux_env\<lparr>platform := ''freebsd''\<rparr>) ''v1.2.0'' = None \<and>
   fst (downloadLanguageServer (linux_env\<lparr>platform := ''freebsd''\<rparr>) False installed_world) =
     Inr (Some ''/s/flatbuffers-language-server-v1.2.0/flatbuffers-language-server'') \<and>
   filter is_error_message
     (emitted installed_world
        (snd (downloadLanguageServer (linux_env\<lparr>platform := ''freebsd''\<rparr>) False installed_world))) = [] \<and>
   filter is_error_message
     (emitted installed_world
        (snd (run_task (linux_env\<lparr>platform := ''freebsd''\<rparr>)
                (ReapTask ''/s'' ''flatbuffers-language-server-v1.2.0'')
                (snd (downloadLanguageServer (linux_env\<lparr>platform := ''freebsd''\<rparr>) False
                        installed_world))))) = [] \<and>
   ShowErrorMessage ''Unsupported platform: freebsd-x64''
     \<in> set (emitted empty_world
               (snd (downloadLanguageServer (linux_env\<lparr>platform := ''freebsd''\<rparr>) False empty_world))) \<and>
   map_of (fs empty_world) (binaryPathFor (linux_env\<lparr>platform := ''freebsd''\<rparr>) ''v1.2.0'') = None"
proof -
  have a: "getAssetName (linux_env\<lparr>platform := ''freebsd''\<rparr>) ''v1.2.0'' = None"
    by (simp add: getAssetName_def linux_env_def)
  have b: "ShowErrorMessage ''Unsupported platform: freebsd-x64''
     \<in> set (emitted empty_world
               (snd (downloadLanguageServer (linux_env\<lparr>platform := ''freebsd''\<rparr>) False empty_world)))"
    by (simp add: program_defs example_defs io_defs host_defs path_defs const_defs emitted_def
        Let_def)
  show ?thesis
    using a b
      installed_binary_wins_over_platform_check
        [where env = "linux_env\<lparr>platform := ''freebsd''\<rparr>" and w = installed_world
           and rel = release_1_2_0 and u = False and s = "''/s''" and cur = "''x''"]
      installed_binary_wins_over_platform_check
        [where env = "linux_env\<lparr>platform := ''freebsd''\<rparr>" and w = empty_world
           and rel = release_1_2_0 and u = False and s = "''/s''" and cur = "''x''"]
    by (simp add: linux_env_def installed_world_def empty_world_def release_1_2_0_def
        binaryPathFor_def versionDirFor_def path_sep_def const_defs)
qed

subsection \<open>C4: the reaper after an install\<close>

lemma cleanup_keeps_current_dir:
  assumes "path_sep env \<notin> set cur"
  shows "map_of (fs (snd (cleanupOldVersions env s cur w))) (path_join env s cur) =
         map_of (fs w) (path_join env s cur)"
proof -
  have "\<not> (\<exists>e \<in> set (reaped env s cur (children env (fs w) s)).
            path_join env s cur = path_join env s e \<or>
            prefix (path_join env s e @ [path_sep env]) (path_join env s cur))"
  proof
    assume "\<exists>e \<in> set (reaped env s cur (children env (fs w) s)).
            path_join env s cur = path_join env s e \<or>
            prefix (path_join env s e @ [path_sep env]) (path_join env s cur)"
    then obtain e where e: "stale cur e"
      and d: "path_join env s cur = path_join env s e \<or>
              prefix (path_join env s e @ [path_sep env]) (path_join env s cur)"
      using set_reaped_subset [of env s cur "children env (fs w) s"] by blast
    from d show False
    proof
      assume "path_join env s cur = path_join env s e"
      with e show False by (simp add: path_join_def stale_def)
    next
      assume "prefix (path_join env s e @ [path_sep env]) (path_join env s cur)"
      then have "prefix (e @ [path_sep env]) cur"
        by (simp add: path_join_def)
      then have "path_sep env \<in> set cur"
        by (auto simp: prefix_def)
      with assms show False by simp
    qed
  qed
  then show ?thesis
    by (simp add: cleanup_fs map_of_reaped)
qed

lemma cleanup_loop_rejects:
  "list_ex (removal_fails env s cur) es \<Longrightarrow> \<exists>err. fst (cleanup_loop env s cur es w) = Inl err"
proof (induction es arbitrary: w)
  case Nil
  then show ?case by simp
next
  case (Cons e es)
  show ?case
  proof (cases "removal_fails env s cur e")
    case True
    then show ?thesis
      by (auto simp: cleanup_loop_Cons removal_fails_def bind_def emit_def fs_remove_def
          simp del: cleanup_loop.simps)
  next
    case False
    then have rest: "list_ex (removal_fails env s cur) es"
      using Cons.prems by simp
    show ?thesis
    proof (cases "stale cur e")
      case True
      then have ok: "hostFailure env Remove (path_join env s e) = None"
        using False by (simp add: removal_fails_def)
      show ?thesis
        using True ok
          Cons.IH [OF rest, of "w\<lparr>events := events w @ [ConsoleLog (''Removing old version: '' @ e)],
                     fs := delete_tree env (path_join env s e) (fs w)\<rparr>"]
        by (simp add: cleanup_loop_Cons bind_def emit_def fs_remove_def del: cleanup_loop.simps)
    next
      case stale: False
      then show ?thesis
        using Cons.IH [OF rest, of w]
        by (simp add: cleanup_loop_Cons bind_def ret_def del: cleanup_loop.simps)
    qed
  qed
qed

lemma cleanup_logs_failure:
  assumes "hostFailure env Readdir s = None" "map_of (fs w) s = Some Dir"
    "list_ex (removal_fails env s cur) (children env (fs w) s)"
  shows "\<exists>err es. emitted w (snd (cleanupOldVersions env s cur w)) =
                    es @ [ConsoleError (''Error cleaning up old versions: '' @ message err)]"
proof -
  let ?loop = "cleanup_loop env s cur (children env (fs w) s)"
  obtain r w1 where r: "?loop w = (r, w1)" by (cases "?loop w")
  from cleanup_loop_rejects [OF assms(3), of w] r obtain err where err: "r = Inl err"
    by auto
  have "emits (\<lambda>e. True) ?loop"
    by (rule emits_cleanup_loop) simp
  then obtain es where es: "events w1 = events w @ es"
    using r unfolding emits_def by (metis snd_conv)
  have "cleanupOldVersions env s cur w =
          (Inr (), w1\<lparr>events := events w1 @
                        [ConsoleError (''Error cleaning up old versions: '' @ message err)]\<rparr>)"
    using assms(1,2) r err
    by (simp add: cleanupOldVersions_def try_catch_def bind_def fs_readdir_def emit_def)
  then show ?thesis
    using es by (auto simp: emitted_def)
qed

text \<open>A fresh install that returns a path has gone through every step.\<close>

lemma fresh_install_success:
  assumes run: "downloadLanguageServer env u w = (Inr (Some p), w')"
    and rel: "latestRelease env (releaseQueries w) = Inr rel"
    and fresh: "map_of (fs w) (binaryPathFor env (tag_name rel)) = None"
  shows "\<exists>w5. w' = snd (cleanupOldVersions env (storagePath env) (VERSION_PREFIX @ tag_name rel) w5) \<and>
              p = binaryPathFor env (tag_name rel) \<and>
              map_of (fs w5) (storagePath env) = Some Dir \<and>
              map_of (fs w5) (versionDirFor env (tag_name rel)) = Some Dir \<and>
              globalState w5 LATEST_VERSION_KEY = Some (tag_name rel)"
proof -
  let ?v = "tag_name rel"
  let ?bp = "binaryPathFor env ?v"
  let ?vd = "versionDirFor env ?v"
  let ?s = "storagePath env"
  obtain r w1 where ens0: "fs_ensureDir env ?s w = (r, w1)"
    by (cases "fs_ensureDir env ?s w")
  have "r = Inr ()"
  proof (cases r)
    case (Inl e)
    then show ?thesis using ens0 run by (simp add: download_rejected)
  qed simp
  then have ens: "fs_ensureDir env ?s w = (Inr (), w1)"
    using ens0 by simp
  have fresh1: "map_of (fs w1) ?bp = None"
    using ensureDir_result(5) [OF ens, of ?bp] fresh by (simp add: binaryPath_not_storage)
  obtain an where an: "getAssetName env ?v = Some an"
  proof (cases "getAssetName env ?v")
    case None
    then show ?thesis
      using run download_unsupported [OF ens rel fresh1, of u] by simp
  qed simp
  obtain a where a: "find (\<lambda>a. name a = an) (assets rel) = Some a"
  proof (cases "find (\<lambda>a. name a = an) (assets rel)")
    case None
    then show ?thesis
      using run download_no_asset [OF ens rel fresh1 an, of u]
        showFailure_result [of u "Error (''Could not find a release asset for your platform: '' @ an)"
                               "lookedUp w1"]
      by simp
  qed simp
  let ?w2 = "log_event (ShowProgress ((if u then ''Updating'' else ''Downloading'') @
                                      '' FlatBuffers Language Server'')) (lookedUp w1)"
  let ?dae = "downloadAndExtract env a an ?v ?vd ?bp"
  obtain r2 wA where dae: "?dae ?w2 = (r2, wA)" by (cases "?dae ?w2")
  have body: "downloadLanguageServer env u w =
                try_catch (bind (\<lambda>w. ?dae (log_event (ShowProgress ((if u then ''Updating'' else ''Downloading'') @
                                      '' FlatBuffers Language Server'')) w))
                             (finishInstall env u ?v ?vd)) (showFailure u) (lookedUp w1)"
    using download_fresh [OF ens rel fresh1 an a, of u]
    by (simp add: bind_def emit_def log_event_def)
  obtain x where x: "r2 = Inr x" "finishInstall env u ?v ?vd x wA = (Inr (Some p), w')"
  proof (cases r2)
    case (Inl e)
    then show ?thesis
      using run body dae showFailure_result [of u e wA]
      by (simp add: try_catch_def bind_def)
  next
    case (Inr x)
    obtain r3 wB where fin: "finishInstall env u ?v ?vd x wA = (r3, wB)"
      by (cases "finishInstall env u ?v ?vd x wA")
    have "r3 = Inr (Some p) \<and> wB = w'"
    proof (cases r3)
      case (Inl e)
      then show ?thesis
        using run body dae Inr fin showFailure_result [of u e wB]
        by (simp add: try_catch_def bind_def)
    next
      case (Inr y)
      then show ?thesis
        using run body dae \<open>r2 = Inr x\<close> fin by (simp add: try_catch_def bind_def)
    qed
    then show ?thesis using that Inr fin by simp
  qed
  obtain t where t: "an = (VERSION_PREFIX @ ?v) @ CHR ''-'' # t"
    using assetName_extends_versionDir [OF an] by blast
  have dae': "downloadAndExtract env a an ?v (path_join env ?s (VERSION_PREFIX @ ?v)) ?bp ?w2 = (Inr x, wA)"
    using dae x(1) by (simp add: versionDirFor_join)
  note d = downloadAndExtract_success [OF dae' t]
  have sA: "map_of (fs wA) ?s = Some Dir"
    using d(3) ensureDir_result(1) [OF ens] by (simp add: log_event_def lookedUp_def)
  from finishInstall_success [OF x(2)] obtain w5 where w5:
    "w' = snd (cleanupOldVersions env ?s (VERSION_PREFIX @ ?v) w5)"
    "Some p = Some x" "\<forall>q. q \<noteq> x \<longrightarrow> map_of (fs w5) q = map_of (fs wA) q"
    "globalState w5 LATEST_VERSION_KEY = Some ?v"
    by blast
  have "map_of (fs w5) ?s = Some Dir"
    using w5(3) sA d(1) binaryPath_not_storage [of env ?v] by (metis)
  moreover have "map_of (fs w5) ?vd = Some Dir"
    using w5(3) d(2) d(1) binaryPath_not_versionDir [of env ?v]
    by (metis versionDirFor_join)
  ultimately show ?thesis
    using w5 d(1) by auto
qed

lemma reaper_invariant:
  assumes "hostFailure env Readdir (storagePath env) = None"
    "\<forall>q. hostFailure env Remove q = None"
    "map_of (fs w) (storagePath env) = Some Dir"
    "map_of (fs w) (versionDirFor env v) \<noteq> None"
    "single_component v"
  shows "versionEntries env (snd (cleanupOldVersions env (storagePath env) (VERSION_PREFIX @ v) w)) =
           {VERSION_PREFIX @ v}"
proof -
  let ?cur = "VERSION_PREFIX @ v"
  let ?s = "storagePath env"
  have nosep: "path_sep env \<notin> set ?cur"
    by (rule version_dir_component [OF assms(5)])
  have cur: "?cur \<in> set (children env (fs w) ?s)"
    using assms(4) nosep by (simp add: set_children versionDirFor_def VERSION_PREFIX_def)
  have "set (children env (fs (snd (cleanupOldVersions env ?s ?cur w))) ?s) =
          {n \<in> set (children env (fs w) ?s). \<not> stale ?cur n}"
    using assms(1,3,2) by (rule cleanup_children)
  then show ?thesis
    using cur by (auto simp: versionEntries_def stale_def startsWith_def)
qed

text \<open>C4, as the code has it. After a fresh install of version \<open>V\<close> (a tag that is one path
  component) that returns a path, when the listing of the storage root and every removal
  succeed, exactly one version-prefixed entry remains under the storage root, the directory
  that encodes \<open>V\<close>, whatever the storage root held before. The reaper never rejects, so it
  cannot fail the acquisition. It removes the stale entries in listing order up to the first
  one whose removal fails; that failure is written to the console and ends the reaping, so
  the stale entries listed after it stay.\<close>

theorem reaper_after_install:
  "(downloadLanguageServer env u w = (Inr (Some p), w') \<and>
    latestRelease env (releaseQueries w) = Inr rel \<and>
    map_of (fs w) (binaryPathFor env (tag_name rel)) = None \<and>
    single_component (tag_name rel) \<and>
    hostFailure env Readdir (storagePath env) = None \<and>
    (\<forall>q. hostFailure env Remove q = None) \<longrightarrow>
      versionEntries env w' = {VERSION_PREFIX @ tag_name rel} \<and>
      map_of (fs w') (versionDirFor env (tag_name rel)) = Some Dir) \<and>
   fst (cleanupOldVersions env s cur w) = Inr () \<and>
   fs (snd (cleanupOldVersions env s cur w)) =
     (if hostFailure env Readdir s = None \<and> map_of (fs w) s = Some Dir
      then fold (\<lambda>e. delete_tree env (path_join env s e))
             (reaped env s cur (children env (fs w) s)) (fs w)
      else fs w) \<and>
   (hostFailure env Readdir s = None \<and> map_of (fs w) s = Some Dir \<and>
    list_ex (removal_fails env s cur) (children env (fs w) s) \<longrightarrow>
      (\<exists>err es. emitted w (snd (cleanupOldVersions env s cur w)) =
                  es @ [ConsoleError (''Error cleaning up old versions: '' @ message err)]))"
proof (intro conjI impI)
  let ?v = "tag_name rel"
  assume h: "downloadLanguageServer env u w = (Inr (Some p), w') \<and>
    latestRelease env (releaseQueries w) = Inr rel \<and>
    map_of (fs w) (binaryPathFor env ?v) = None \<and>
    single_component ?v \<and>
    hostFailure env Readdir (storagePath env) = None \<and>
    (\<forall>q. hostFailure env Remove q = None)"
  then have run: "downloadLanguageServer env u w = (Inr (Some p), w')"
    and rel: "latestRelease env (releaseQueries w) = Inr rel"
    and fresh: "map_of (fs w) (binaryPathFor env ?v) = None"
    and sc: "single_component ?v"
    and rd: "hostFailure env Readdir (storagePath env) = None"
    and rm: "\<forall>q. hostFailure env Remove q = None"
    by simp_all
  from fresh_install_success [OF run rel fresh] obtain w5 where w5:
    "w' = snd (cleanupOldVersions env (storagePath env) (VERSION_PREFIX @ ?v) w5)"
    "map_of (fs w5) (storagePath env) = Some Dir"
    "map_of (fs w5) (versionDirFor env ?v) = Some Dir"
    by blast
  have present: "map_of (fs w5) (versionDirFor env ?v) \<noteq> None"
    using w5(3) by simp
  show "versionEntries env w' = {VERSION_PREFIX @ ?v}"
    unfolding w5(1) using rd rm w5(2) present sc by (rule reaper_invariant)
  show "map_of (fs w') (versionDirFor env ?v) = Some Dir"
    unfolding w5(1) versionDirFor_join
    using cleanup_keeps_current_dir [OF version_dir_component [OF sc], of env "storagePath env" w5]
      w5(3)
    by (simp add: versionDirFor_join)
next
  show "fst (cleanupOldVersions env s cur w) = Inr ()"
    by (rule cleanup_never_rejects)
next
  show "fs (snd (cleanupOldVersions env s cur w)) =
     (if hostFailure env Readdir s = None \<and> map_of (fs w) s = Some Dir
      then fold (\<lambda>e. delete_tree env (path_join env s e))
             (reaped env s cur (children env (fs w) s)) (fs w)
      else fs w)"
    by (rule cleanup_fs)
next
  assume "hostFailure env Readdir s = None \<and> map_of (fs w) s = Some Dir \<and>
    list_ex (removal_fails env s cur) (children env (fs w) s)"
  then show "\<exists>err es. emitted w (snd (cleanupOldVersions env s cur w)) =
                  es @ [ConsoleError (''Error cleaning up old versions: '' @ message err)]"
    using cleanup_logs_failure [of env s w cur] by blast
qed

theorem reaper_after_install_witness:
  "fst (downloadLanguageServer linux_env False stale_world) =
     Inr (Some ''/s/flatbuffers-language-server-v1.2.0/flatbuffers-language-server'') \<and>
   set (children linux_env (fs stale_world) ''/s'') =
     {''flatbuffers-language-server-v1.0.0'', ''flatbuffers-language-server-v1.1.0''} \<and>
   versionEntries linux_env (snd (downloadLanguageServer linux_env False stale_world)) =
     {''flatbuffers-language-server-v1.2.0''} \<and>
   (\<exists>err es. emitted stale_world
                (snd (cleanupOldVersions locked_env ''/s'' ''flatbuffers-language-server-v1.2.0''
                        stale_world)) =
              es @ [ConsoleError (''Error cleaning up old versions: '' @ message err)])"
proof -
  have a: "fst (downloadLanguageServer linux_env False stale_world) =
     Inr (Some ''/s/flatbuffers-language-server-v1.2.0/flatbuffers-language-server'')"
    by (simp add: program_defs example_defs io_defs host_defs path_defs const_defs Let_def)
  then have run: "downloadLanguageServer linux_env False stale_world =
     (Inr (Some ''/s/flatbuffers-language-server-v1.2.0/flatbuffers-language-server''),
      snd (downloadLanguageServer linux_env False stale_world))"
    by (simp add: prod_eq_iff)
  have b: "children linux_env (fs stale_world) ''/s'' =
     [''flatbuffers-language-server-v1.0.0'', ''flatbuffers-language-server-v1.1.0'']"
    by (simp add: example_defs path_defs)
  have c: "versionEntries linux_env (snd (downloadLanguageServer linux_env False stale_world)) =
     {''flatbuffers-language-server-v1.2.0''}"
    using run
      reaper_after_install
        [where env = linux_env and u = False and w = stale_world
           and p = "''/s/flatbuffers-language-server-v1.2.0/flatbuffers-language-server''"
           and w' = "snd (downloadLanguageServer linux_env False stale_world)"
           and rel = release_1_2_0]
    by (simp add: linux_env_def stale_world_def release_1_2_0_def binaryPathFor_def
        versionDirFor_def path_sep_def single_component_def const_defs)
  have d: "\<exists>err es. emitted stale_world
                (snd (cleanupOldVersions locked_env ''/s'' ''flatbuffers-language-server-v1.2.0''
                        stale_world)) =
              es @ [ConsoleError (''Error cleaning up old versions: '' @ message err)]"
    using reaper_after_install
        [where env = locked_env and s = "''/s''" and w = stale_world
           and cur = "''flatbuffers-language-server-v1.2.0''"]
    by (simp add: example_defs path_defs removal_fails_def stale_def const_defs)
  show ?thesis
    using a b c d by simp
qed

text \<open>The claim as stated fails: when the directory of \<^verbatim>\<open>v1.0.0\<close> cannot be removed, the
  install of \<^verbatim>\<open>v1.2.0\<close> succeeds and three version directories remain; the directory of
  \<^verbatim>\<open>v1.1.0\<close>, whose removal would succeed, is never tried.\<close>

theorem reaper_stops_at_first_failure:
  "fst (downloadLanguageServer locked_env False stale_world) =
     Inr (Some ''/s/flatbuffers-language-server-v1.2.0/flatbuffers-language-server'') \<and>
   hostFailure locked_env Remove ''/s/flatbuffers-language-server-v1.1.0'' = None \<and>
   children locked_env (fs (snd (downloadLanguageServer locked_env False stale_world))) ''/s'' =
     [''flatbuffers-language-server-v1.0.0'', ''flatbuffers-language-server-v1.1.0'',
      ''flatbuffers-language-server-v1.2.0'']"
  by (simp add: program_defs example_defs io_defs host_defs path_defs const_defs Let_def)

end
